theory Spec2Isabelle
  imports Main "HOL-Library.Finite_Map"
begin

section \<open>JavaScript values of the resume editor\<close>

text \<open>
  The editor store keeps one resume document, a plain JSON tree: it is read from
  \<^verbatim>\<open>localStorage\<close> with \<^verbatim>\<open>JSON.parse\<close>, deep-cloned with
  \<^verbatim>\<open>JSON.parse(JSON.stringify(doc))\<close> before every structural edit, and
  written back with \<^verbatim>\<open>JSON.stringify\<close>. The embedding therefore works on JSON
  values. An object is a finite map from property names to values, so equality of two
  values is deep equality (the order of an object's keys is not part of the value).
  Numbers are integers: the store never computes with a number other than the
  millisecond clock. Strings are lists of characters, which agree with JavaScript's
  strings on ASCII text. The JavaScript value \<^verbatim>\<open>undefined\<close> is \<open>None\<close> of
  \<open>json option\<close>.
\<close>

datatype json =
    JNull
  | JBool bool
  | JNum int
  | JStr string
  | JArr "json list"
  | JObj "(string, json) fmap"

type_synonym jsval = "json option"

text \<open>
  What a call can end in besides a value. \<open>TypeError\<close> and \<open>RangeError\<close> are the
  engine's own exceptions (a property read on \<^verbatim>\<open>null\<close> or \<^verbatim>\<open>undefined\<close>, a call
  of something that is not a function; an invalid array length). \<open>InvalidTarget\<close> and
  \<open>InvalidPath\<close> are the two \<^verbatim>\<open>throw new Error(...)\<close> of \<^verbatim>\<open>deepSet\<close>.
  \<open>Unmodelled\<close> is not an exception of the source: it marks a run in which the source
  goes on with something this embedding does not describe. That is the case when a
  prototype is reached or replaced through \<^verbatim>\<open>__proto__\<close>, when a write gives an
  array a hole or a named property (such an array is not a JSON value), and when an
  array's \<^verbatim>\<open>length\<close> is assigned a string or an array whose conversion to a number
  needs the engine's floating-point reading of numerals.
\<close>

datatype error = TypeError | RangeError | InvalidTarget | InvalidPath | Unmodelled

text \<open>Truthiness (\<^verbatim>\<open>!!v\<close>) and \<^verbatim>\<open>typeof v === 'object'\<close>.\<close>

fun truthy :: "jsval \<Rightarrow> bool" where
  "truthy None = False"
| "truthy (Some JNull) = False"
| "truthy (Some (JBool b)) = b"
| "truthy (Some (JNum n)) = (n \<noteq> 0)"
| "truthy (Some (JStr s)) = (s \<noteq> [])"
| "truthy (Some (JArr xs)) = True"
| "truthy (Some (JObj m)) = True"

fun typeof_object :: "jsval \<Rightarrow> bool" where
  "typeof_object (Some JNull) = True"
| "typeof_object (Some (JArr xs)) = True"
| "typeof_object (Some (JObj m)) = True"
| "typeof_object v = False"

subsection \<open>Array index keys\<close>

text \<open>
  A property key of an array is an index when it is the canonical decimal numeral of a
  number below \<open>2^32 - 1\<close>: \<^verbatim>\<open>"0"\<close> and \<^verbatim>\<open>"17"\<close> are, \<^verbatim>\<open>"01"\<close>,
  \<^verbatim>\<open>""\<close> and \<^verbatim>\<open>"1e3"\<close> are not.
\<close>

definition digit_char :: "nat \<Rightarrow> char" where
  "digit_char d = ''0123456789'' ! d"

fun decimal :: "nat \<Rightarrow> string" where
  "decimal n = (if n < 10 then [digit_char n] else decimal (n div 10) @ [digit_char (n mod 10)])"

declare decimal.simps [simp del]

definition is_digit :: "char \<Rightarrow> bool" where
  "is_digit c = (48 \<le> (of_char c :: nat) \<and> (of_char c :: nat) \<le> 57)"

definition digits_value :: "string \<Rightarrow> nat" where
  "digits_value s = foldl (\<lambda>n c. 10 * n + ((of_char c :: nat) - 48)) 0 s"

definition array_index :: "string \<Rightarrow> nat option" where
  "array_index k =
     (if k \<noteq> [] \<and> list_all is_digit k \<and> (hd k \<noteq> CHR ''0'' \<or> length k = 1)
         \<and> digits_value k < 4294967295
      then Some (digits_value k) else None)"

subsection \<open>Property reads and writes\<close>

text \<open>
  \<^verbatim>\<open>x[k]\<close> for a JSON value \<open>x\<close>. A read on \<^verbatim>\<open>null\<close> throws. An object
  answers with its own property; members inherited from \<^verbatim>\<open>Object.prototype\<close> are
  functions, which no test of the store tells from \<^verbatim>\<open>undefined\<close>, except
  \<^verbatim>\<open>__proto__\<close>, which is the prototype object itself: reading it where it is not an
  own property leaves the fragment. An array answers index keys and \<^verbatim>\<open>length\<close>, a
  string \<^verbatim>\<open>length\<close> and its characters.
\<close>

definition proto_key :: string where
  "proto_key = ''__proto__''"

fun get_prop :: "json \<Rightarrow> string \<Rightarrow> error + jsval" where
  "get_prop JNull k = Inl TypeError"
| "get_prop (JObj m) k =
     (if k = proto_key \<and> fmlookup m k = None then Inl Unmodelled else Inr (fmlookup m k))"
| "get_prop (JArr xs) k =
     (if k = proto_key then Inl Unmodelled
      else case array_index k of
             Some i \<Rightarrow> Inr (if i < length xs then Some (xs ! i) else None)
           | None \<Rightarrow> Inr (if k = ''length'' then Some (JNum (int (length xs))) else None))"
| "get_prop (JStr s) k =
     (if k = proto_key then Inl Unmodelled
      else case array_index k of
             Some i \<Rightarrow> Inr (if i < length s then Some (JStr [s ! i]) else None)
           | None \<Rightarrow> Inr (if k = ''length'' then Some (JNum (int (length s))) else None))"
| "get_prop (JBool b) k = (if k = proto_key then Inl Unmodelled else Inr None)"
| "get_prop (JNum n) k = (if k = proto_key then Inl Unmodelled else Inr None)"

text \<open>
  \<^verbatim>\<open>x.__proto__ = v\<close> where \<^verbatim>\<open>__proto__\<close> is not an own property: the inherited
  setter replaces the prototype when \<open>v\<close> is an object, an array or \<^verbatim>\<open>null\<close>, and
  does nothing, without an exception, for any other value. No own property is made.
\<close>

definition set_proto :: "json \<Rightarrow> json \<Rightarrow> error + json" where
  "set_proto x v =
     (case v of
        JObj m \<Rightarrow> Inl Unmodelled
      | JArr xs \<Rightarrow> Inl Unmodelled
      | JNull \<Rightarrow> Inl Unmodelled
      | _ \<Rightarrow> Inr x)"

text \<open>
  The length that \<^verbatim>\<open>xs.length = v\<close> asks for: the number \<open>v\<close> converts to, when it
  is a whole number from 0 to \<open>2^32 - 1\<close>; a \<^verbatim>\<open>RangeError\<close> for any other number.
  \<^verbatim>\<open>null\<close> and \<^verbatim>\<open>false\<close> convert to 0, \<^verbatim>\<open>true\<close> to 1, a string of decimal
  digits (the empty string too) to its value, an object to \<^verbatim>\<open>NaN\<close>; the conversion of
  an object with an own property \<^verbatim>\<open>toString\<close> (never a function in JSON) throws a
  \<^verbatim>\<open>TypeError\<close>.
\<close>

definition array_length_of :: "json \<Rightarrow> error + nat" where
  "array_length_of v =
     (case v of
        JNum n \<Rightarrow> if 0 \<le> n \<and> n \<le> 4294967295 then Inr (nat n) else Inl RangeError
      | JBool b \<Rightarrow> Inr (if b then 1 else 0)
      | JNull \<Rightarrow> Inr 0
      | JStr s \<Rightarrow>
          if list_all is_digit s
          then (if digits_value s \<le> 4294967295 then Inr (digits_value s) else Inl RangeError)
          else Inl Unmodelled
      | JArr xs \<Rightarrow> Inl Unmodelled
      | JObj m \<Rightarrow> if fmlookup m ''toString'' = None then Inl RangeError else Inl TypeError)"

text \<open>
  \<^verbatim>\<open>x[k] = v\<close> in module (strict) code, returning the container after the write. On an
  object the key becomes (or stays) an own property, except \<^verbatim>\<open>__proto__\<close> where it is
  not one already. On an array an index inside the array overwrites the element and the
  index \<open>length xs\<close> appends; \<^verbatim>\<open>length\<close> cuts the array down to the length asked for
  (or leaves it, or throws); a larger index or length would make holes and any other key a
  named property. A write on a primitive throws in strict code.
\<close>

fun put_prop :: "json \<Rightarrow> string \<Rightarrow> json \<Rightarrow> error + json" where
  "put_prop (JObj m) k v =
     (if k = proto_key \<and> fmlookup m k = None then set_proto (JObj m) v
      else Inr (JObj (fmupd k v m)))"
| "put_prop (JArr xs) k v =
     (if k = proto_key then set_proto (JArr xs) v
      else case array_index k of
             Some i \<Rightarrow>
               if i < length xs then Inr (JArr (xs[i := v]))
               else if i = length xs then Inr (JArr (xs @ [v]))
               else Inl Unmodelled
           | None \<Rightarrow>
               if k = ''length''
               then (case array_length_of v of
                       Inl e \<Rightarrow> Inl e
                     | Inr n \<Rightarrow> if n \<le> length xs then Inr (JArr (take n xs)) else Inl Unmodelled)
               else Inl Unmodelled)"
| "put_prop x k v = Inl TypeError"

text \<open>
  The container \<open>x\<close> with the value under \<open>k\<close> replaced by \<open>c\<close>. This is not a step
  of the source: it says what \<open>x\<close> is once the object it holds under \<open>k\<close> has been
  mutated into \<open>c\<close>.
\<close>

definition with_slot :: "json \<Rightarrow> string \<Rightarrow> json \<Rightarrow> json" where
  "with_slot x k c =
     (case x of
        JObj m \<Rightarrow> JObj (fmupd k c m)
      | JArr xs \<Rightarrow> (case array_index k of Some i \<Rightarrow> JArr (xs[i := c]) | None \<Rightarrow> x)
      | _ \<Rightarrow> x)"

section \<open>deepSet: the nested path setter (src/lib/utils/deepSet.ts)\<close>

text \<open>\<^verbatim>\<open>path.split('.')\<close>: the pieces between the dots, at least one piece.\<close>

fun split_on :: "char \<Rightarrow> string \<Rightarrow> string list" where
  "split_on c [] = [[]]"
| "split_on c (x # xs) =
     (if x = c then [] # split_on c xs
      else case split_on c xs of
             w # ws \<Rightarrow> (x # w) # ws
           | [] \<Rightarrow> [[x]])"

text \<open>
  The loop and the final assignment. The source walks a pointer \<^verbatim>\<open>current\<close> down the
  tree and mutates in place; on a tree (the store only calls it on a fresh deep clone) that
  is the nested functional update below, which returns the updated \<^verbatim>\<open>current\<close>.
  For a key before the last one the slot is tested with
  \<^verbatim>\<open>!current[key] || typeof current[key] !== 'object'\<close>; when the test holds the slot is
  first overwritten with \<^verbatim>\<open>{}\<close> (the assignment \<^verbatim>\<open>current[key] = {}\<close>, which can
  throw on an array's \<^verbatim>\<open>length\<close>), and the walk goes on inside the slot.
\<close>

definition needs_repair :: "jsval \<Rightarrow> bool" where
  "needs_repair slot = (\<not> truthy slot \<or> \<not> typeof_object slot)"

fun deepSet_loop :: "json \<Rightarrow> string list \<Rightarrow> json \<Rightarrow> error + json" where
  "deepSet_loop current [] v = Inr current"
| "deepSet_loop current [lastKey] v = put_prop current lastKey v"
| "deepSet_loop current (key # keys) v =
     (case get_prop current key of
        Inl e \<Rightarrow> Inl e
      | Inr slot \<Rightarrow>
          if needs_repair slot
          then (case put_prop current key (JObj fmempty) of
                  Inl e \<Rightarrow> Inl e
                | Inr repaired \<Rightarrow>
                    (case deepSet_loop (JObj fmempty) keys v of
                       Inl e \<Rightarrow> Inl e
                     | Inr child \<Rightarrow> Inr (with_slot repaired key child)))
          else (case deepSet_loop (the slot) keys v of
                  Inl e \<Rightarrow> Inl e
                | Inr child \<Rightarrow> Inr (with_slot current key child)))"

definition deepSet :: "jsval \<Rightarrow> jsval \<Rightarrow> json \<Rightarrow> error + json" where
  "deepSet obj path v =
     (if \<not> truthy obj \<or> \<not> typeof_object obj then Inl InvalidTarget
      else case path of
             Some (JStr p) \<Rightarrow> deepSet_loop (the obj) (split_on CHR ''.'' p) v
           | _ \<Rightarrow> Inl InvalidPath)"

section \<open>uid: identifiers (src/lib/utils/ids.ts)\<close>

text \<open>
  \<^verbatim>\<open>uid = (prefix = 'id') => prefix + '_' + Math.random().toString(36).slice(2, 10)\<close>.
  The random number is an input of the model, given by its base-36 rendering (the string
  \<^verbatim>\<open>Math.random().toString(36)\<close>); an omitted prefix is \<open>None\<close>.
\<close>

definition slice :: "nat \<Rightarrow> nat \<Rightarrow> string \<Rightarrow> string" where
  "slice a b s = take (b - a) (drop a s)"

definition uid :: "string option \<Rightarrow> string \<Rightarrow> string" where
  "uid prefix rendering =
     (case prefix of None \<Rightarrow> ''id'' | Some p \<Rightarrow> p) @ ''_'' @ slice 2 10 rendering"

text \<open>
  What \<^verbatim>\<open>toString(36)\<close> returns for a number in \<open>[0, 1)\<close>: \<^verbatim>\<open>"0"\<close> for zero,
  otherwise \<^verbatim>\<open>"0."\<close> and at least one digit out of \<^verbatim>\<open>0-9a-z\<close>.
\<close>

definition base36_digit :: "char \<Rightarrow> bool" where
  "base36_digit c = (c \<in> set ''0123456789abcdefghijklmnopqrstuvwxyz'')"

definition base36_rendering :: "string \<Rightarrow> bool" where
  "base36_rendering r =
     (r = ''0'' \<or> (take 2 r = ''0.'' \<and> drop 2 r \<noteq> [] \<and> list_all base36_digit (drop 2 r)))"

section \<open>The editor store (zustand store of the editor)\<close>

subsection \<open>Object spread and small helpers\<close>

text \<open>
  \<^verbatim>\<open>{...x}\<close>: the own enumerable properties of \<open>x\<close>. Nothing for
  \<^verbatim>\<open>undefined\<close>, \<^verbatim>\<open>null\<close>, booleans and numbers; the elements under their indices
  for an array; the characters under their indices for a string.
\<close>

fun spread :: "jsval \<Rightarrow> (string, json) fmap" where
  "spread (Some (JObj m)) = m"
| "spread (Some (JArr xs)) = fmap_of_list (zip (map decimal [0..<length xs]) xs)"
| "spread (Some (JStr s)) = fmap_of_list (zip (map decimal [0..<length s]) (map (\<lambda>c. JStr [c]) s))"
| "spread v = fmempty"

text \<open>\<^verbatim>\<open>x?.k\<close>: \<^verbatim>\<open>undefined\<close> when \<open>x\<close> is \<^verbatim>\<open>undefined\<close> or \<^verbatim>\<open>null\<close>.\<close>

fun opt_chain :: "jsval \<Rightarrow> string \<Rightarrow> error + jsval" where
  "opt_chain None k = Inr None"
| "opt_chain (Some JNull) k = Inr None"
| "opt_chain (Some x) k = get_prop x k"

text \<open>
  \<^verbatim>\<open>JSON.parse(JSON.stringify(doc))\<close>. On a JSON value the round trip gives an equal
  value; what the source gains is a copy that shares nothing with the previous snapshot,
  which has no counterpart in a value semantics.
\<close>

definition deep_clone :: "json \<Rightarrow> json" where
  "deep_clone d = d"

text \<open>
  \<^verbatim>\<open>xs.find(x => x.id === id)\<close> for a string \<open>id\<close>, as the position of the first
  match. The callback reads \<^verbatim>\<open>x.id\<close>, which throws on a \<^verbatim>\<open>null\<close> element met
  before a match. A match has an own property \<^verbatim>\<open>id\<close>, so it is an object and truthy:
  \<^verbatim>\<open>!section\<close> holds exactly when nothing was found.
\<close>

fun find_by_id :: "json list \<Rightarrow> string \<Rightarrow> error + nat option" where
  "find_by_id [] i = Inr None"
| "find_by_id (x # xs) i =
     (case get_prop x ''id'' of
        Inl e \<Rightarrow> Inl e
      | Inr v \<Rightarrow>
          if v = Some (JStr i) then Inr (Some 0)
          else (case find_by_id xs i of
                  Inl e \<Rightarrow> Inl e
                | Inr None \<Rightarrow> Inr None
                | Inr (Some n) \<Rightarrow> Inr (Some (Suc n))))"

text \<open>\<^verbatim>\<open>xs.filter(b => b.id !== id)\<close>.\<close>

fun filter_out_id :: "json list \<Rightarrow> string \<Rightarrow> error + json list" where
  "filter_out_id [] i = Inr []"
| "filter_out_id (x # xs) i =
     (case get_prop x ''id'' of
        Inl e \<Rightarrow> Inl e
      | Inr v \<Rightarrow>
          (case filter_out_id xs i of
             Inl e \<Rightarrow> Inl e
           | Inr r \<Rightarrow> Inr (if v \<noteq> Some (JStr i) then x # r else r)))"

text \<open>
  The property \<open>k\<close> of \<open>x\<close> as an array on which a method (\<^verbatim>\<open>find\<close>, \<^verbatim>\<open>filter\<close>,
  \<^verbatim>\<open>map\<close>, \<^verbatim>\<open>push\<close>) is about to be called: anything but an array has no such
  method, and the call throws.
\<close>

definition array_prop :: "json \<Rightarrow> string \<Rightarrow> error + json list" where
  "array_prop x k =
     (case get_prop x k of
        Inl e \<Rightarrow> Inl e
      | Inr (Some (JArr xs)) \<Rightarrow> Inr xs
      | Inr _ \<Rightarrow> Inl TypeError)"

text \<open>
  The clone with its \<open>i\<close>-th section replaced: what \<^verbatim>\<open>newDoc\<close> is after the source
  has mutated the section it found.
\<close>

definition with_section :: "json \<Rightarrow> nat \<Rightarrow> json \<Rightarrow> json" where
  "with_section newDoc i section =
     (case newDoc of
        JObj m \<Rightarrow>
          (case fmlookup m ''sections'' of
             Some (JArr ss) \<Rightarrow> JObj (fmupd ''sections'' (JArr (ss[i := section])) m)
           | _ \<Rightarrow> newDoc)
      | _ \<Rightarrow> newDoc)"

definition with_own :: "json \<Rightarrow> string \<Rightarrow> json \<Rightarrow> json" where
  "with_own x k v = (case x of JObj m \<Rightarrow> JObj (fmupd k v m) | _ \<Rightarrow> x)"

subsection \<open>State, persistence and the commit point\<close>

text \<open>
  What the store takes from its surroundings: the built-in sample document (an object
  literal of \<^verbatim>\<open>lib/schema/resume\<close>, whose time stamps are read when the module
  loads), \<^verbatim>\<open>JSON.stringify\<close> and \<^verbatim>\<open>JSON.parse\<close> (\<open>None\<close> is a thrown
  \<^verbatim>\<open>SyntaxError\<close>), whether \<^verbatim>\<open>localStorage.setItem\<close> throws on a text (a full or
  blocked storage), and the string the engine makes of a value that is not a string when
  it is concatenated.
\<close>

record runtime =
  sampleResume :: "(string, json) fmap"
  JSON_stringify :: "json \<Rightarrow> string"
  JSON_parse :: "string \<Rightarrow> json option"
  setItem_throws :: "string \<Rightarrow> bool"
  ToString :: "json \<Rightarrow> string"

text \<open>
  A timer that has been set and has neither run nor been cleared: its handle, the time
  it is due, and the document its callback closes over.
\<close>

type_synonym timer = "nat \<times> int \<times> json"

text \<open>
  The state: the two fields of the zustand store; the item \<^verbatim>\<open>resume_doc_v1\<close> of
  \<^verbatim>\<open>localStorage\<close>; the pending timers in the order they were set; the module
  variable \<^verbatim>\<open>saveTimeout\<close> (the handle of the timer set last, \<open>None\<close> before the
  first); the handle the next \<^verbatim>\<open>setTimeout\<close> returns. \<open>writes\<close> records the texts
  handed to \<^verbatim>\<open>setItem\<close>, newest first; the code does not read it. \<open>console\<close> is
  what the actions of the store and its save timer have logged with \<^verbatim>\<open>console.warn\<close>
  and \<^verbatim>\<open>console.error\<close>, oldest first (the first argument of each call).
  \<open>outside_model\<close> is set when a call has ended in \<open>Unmodelled\<close>: the source has gone
  on in a way this embedding does not describe, and the other fields say nothing of the
  store from then on.
\<close>

record store =
  doc :: json
  template :: string
  item :: "string option"
  timers :: "timer list"
  saveTimeout :: "nat option"
  next_timer :: nat
  writes :: "string list"
  console :: "string list"
  outside_model :: bool

definition AUTOSAVE_DELAY :: int where
  "AUTOSAVE_DELAY = 500"

text \<open>
  \<^verbatim>\<open>loadFromStorage\<close>. The argument is what \<^verbatim>\<open>localStorage.getItem\<close> does: it throws,
  or returns \<^verbatim>\<open>null\<close> (\<open>None\<close>) or the stored text. Every exception inside the
  \<^verbatim>\<open>try\<close> ends in the sample.
\<close>

definition isArray :: "jsval \<Rightarrow> bool" where
  "isArray v = (case v of Some (JArr xs) \<Rightarrow> True | _ \<Rightarrow> False)"

definition loadFromStorage :: "runtime \<Rightarrow> error + string option \<Rightarrow> json" where
  "loadFromStorage rt got =
     (case got of
        Inl e \<Rightarrow> JObj (sampleResume rt)
      | Inr None \<Rightarrow> JObj (sampleResume rt)
      | Inr (Some stored) \<Rightarrow>
          if stored = [] then JObj (sampleResume rt)
          else (case JSON_parse rt stored of
                  None \<Rightarrow> JObj (sampleResume rt)
                | Some parsed \<Rightarrow>
                    if \<not> truthy (Some parsed) then JObj (sampleResume rt)
                    else (case get_prop parsed ''id'' of
                            Inl e \<Rightarrow> JObj (sampleResume rt)
                          | Inr idv \<Rightarrow>
                              if \<not> truthy idv then JObj (sampleResume rt)
                              else (case get_prop parsed ''sections'' of
                                      Inl e \<Rightarrow> JObj (sampleResume rt)
                                    | Inr sv \<Rightarrow>
                                        if truthy sv \<and> isArray sv then parsed
                                        else JObj (sampleResume rt)))))"

text \<open>
  \<^verbatim>\<open>clearTimeout(h)\<close>: the pending timer with handle \<open>h\<close> is dropped; nothing happens
  for \<^verbatim>\<open>undefined\<close> or for the handle of a timer that has run.
\<close>

definition clearTimeout :: "nat option \<Rightarrow> timer list \<Rightarrow> timer list" where
  "clearTimeout h ts = (case h of None \<Rightarrow> ts | Some i \<Rightarrow> filter (\<lambda>tm. fst tm \<noteq> i) ts)"

text \<open>
  \<^verbatim>\<open>saveToStorage\<close> at time \<open>now\<close>: \<^verbatim>\<open>clearTimeout(saveTimeout)\<close>, then
  \<^verbatim>\<open>saveTimeout = setTimeout(..., AUTOSAVE_DELAY)\<close> with a callback that closes over
  \<open>d\<close>.
\<close>

definition saveToStorage :: "int \<Rightarrow> json \<Rightarrow> store \<Rightarrow> store" where
  "saveToStorage now d s =
     s\<lparr>timers := clearTimeout (saveTimeout s) (timers s) @ [(next_timer s, now + AUTOSAVE_DELAY, d)],
       saveTimeout := Some (next_timer s),
       next_timer := Suc (next_timer s)\<rparr>"

text \<open>
  A timer runs: it leaves the pending timers and its callback makes one \<^verbatim>\<open>setItem\<close>
  call with the text of the captured document; when the call throws, the exception is
  caught and logged with \<^verbatim>\<open>console.error\<close>, and the item keeps its old value.
\<close>

definition run_timer :: "runtime \<Rightarrow> timer \<Rightarrow> store \<Rightarrow> store" where
  "run_timer rt tm s =
     s\<lparr>timers := filter (\<lambda>x. fst x \<noteq> fst tm) (timers s),
       writes := JSON_stringify rt (snd (snd tm)) # writes s,
       item := (if setItem_throws rt (JSON_stringify rt (snd (snd tm))) then item s
                else Some (JSON_stringify rt (snd (snd tm)))),
       console := (if setItem_throws rt (JSON_stringify rt (snd (snd tm)))
                   then console s @ [''Failed to save resume to localStorage:'']
                   else console s)\<rparr>"

text \<open>
  Time passes until \<open>t\<close> with no call into the store: the timers due by then run, in
  the order they were set (all have the same delay, so that is the order they are due).
\<close>

definition advance :: "runtime \<Rightarrow> int \<Rightarrow> store \<Rightarrow> store" where
  "advance rt t s = fold (run_timer rt) (filter (\<lambda>tm. fst (snd tm) \<le> t) (timers s)) s"

text \<open>
  What \<^verbatim>\<open>setDoc\<close> is given: a document, or a function of the current document. A
  function is modelled by the messages it hands to \<^verbatim>\<open>console.warn\<close> and the document
  it returns or the exception it throws. \<open>silent\<close> is a function that logs nothing.
\<close>

datatype updater = Direct json | Fn "json \<Rightarrow> string list \<times> (error + json)"

definition silent :: "(json \<Rightarrow> error + json) \<Rightarrow> json \<Rightarrow> string list \<times> (error + json)" where
  "silent f d = ([], f d)"

definition run_updater :: "updater \<Rightarrow> json \<Rightarrow> string list \<times> (error + json)" where
  "run_updater upd d = (case upd of Fn f \<Rightarrow> f d | Direct x \<Rightarrow> ([], Inr x))"

text \<open>
  \<^verbatim>\<open>setDoc(updater)\<close> at time \<open>now\<close> (\<^verbatim>\<open>Date.now()\<close>). An exception of the updater or
  of the read \<^verbatim>\<open>newDoc.meta\<close> leaves the callback of \<^verbatim>\<open>set\<close> before anything is
  stored or scheduled; what the updater had logged by then is the first component of
  \<open>run_updater\<close>.
\<close>

definition stamped :: "int \<Rightarrow> json \<Rightarrow> error + json" where
  "stamped now newDoc =
     (case get_prop newDoc ''meta'' of
        Inl e \<Rightarrow> Inl e
      | Inr meta \<Rightarrow>
          Inr (JObj (fmupd ''meta'' (JObj (fmupd ''updatedAt'' (JNum now) (spread meta)))
                      (spread (Some newDoc)))))"

definition setDoc :: "int \<Rightarrow> updater \<Rightarrow> store \<Rightarrow> error + store" where
  "setDoc now upd s =
     (case snd (run_updater upd (doc s)) of
        Inl e \<Rightarrow> Inl e
      | Inr newDoc \<Rightarrow>
          (case stamped now newDoc of
             Inl e \<Rightarrow> Inl e
           | Inr updatedDoc \<Rightarrow>
               Inr (saveToStorage now updatedDoc
                      (s\<lparr>doc := updatedDoc,
                         console := console s @ fst (run_updater upd (doc s))\<rparr>))))"

subsection \<open>The mutations\<close>

text \<open>
  \<^verbatim>\<open>updateField\<close>. The two misses log a warning and return the document they were
  given.
\<close>

definition updateField_updater ::
  "string \<Rightarrow> string \<Rightarrow> string \<Rightarrow> json \<Rightarrow> json \<Rightarrow> string list \<times> (error + json)" where
  "updateField_updater sectionId blockId path v d =
     (let newDoc = deep_clone d in
      case array_prop newDoc ''sections'' of
        Inl e \<Rightarrow> ([], Inl e)
      | Inr sections \<Rightarrow>
          (case find_by_id sections sectionId of
             Inl e \<Rightarrow> ([], Inl e)
           | Inr None \<Rightarrow> ([''Section '' @ sectionId @ '' not found''], Inr d)
           | Inr (Some i) \<Rightarrow>
               (case array_prop (sections ! i) ''blocks'' of
                  Inl e \<Rightarrow> ([], Inl e)
                | Inr blocks \<Rightarrow>
                    (case find_by_id blocks blockId of
                       Inl e \<Rightarrow> ([], Inl e)
                     | Inr None \<Rightarrow>
                         ([''Block '' @ blockId @ '' not found in section '' @ sectionId], Inr d)
                     | Inr (Some j) \<Rightarrow>
                         (case get_prop (blocks ! j) ''fields'' of
                            Inl e \<Rightarrow> ([], Inl e)
                          | Inr fieldsv \<Rightarrow>
                              (case deepSet fieldsv (Some (JStr path)) v of
                                 Inl e \<Rightarrow> ([], Inl e)
                               | Inr fields' \<Rightarrow>
                                   ([], Inr (with_section newDoc i
                                          (with_own (sections ! i) ''blocks''
                                             (JArr (blocks[j := with_own (blocks ! j) ''fields'' fields'])))))))))))"

definition updateField :: "int \<Rightarrow> string \<Rightarrow> string \<Rightarrow> string \<Rightarrow> json \<Rightarrow> store \<Rightarrow> error + store" where
  "updateField now sectionId blockId path v s =
     setDoc now (Fn (updateField_updater sectionId blockId path v)) s"

text \<open>
  \<^verbatim>\<open>addBlock\<close>. \<open>rendering\<close> is the random number \<^verbatim>\<open>uid\<close> draws. The prefix is
  \<^verbatim>\<open>blockTemplate.type\<close>: \<^verbatim>\<open>uid\<close>'s default when it is \<^verbatim>\<open>undefined\<close>, the
  engine's string of it when it is not a string.
\<close>

definition addBlock_updater ::
  "runtime \<Rightarrow> string \<Rightarrow> string \<Rightarrow> json \<Rightarrow> json \<Rightarrow> string list \<times> (error + json)" where
  "addBlock_updater rt rendering sectionId blockTemplate d =
     (let newDoc = deep_clone d in
      case array_prop newDoc ''sections'' of
        Inl e \<Rightarrow> ([], Inl e)
      | Inr sections \<Rightarrow>
          (case find_by_id sections sectionId of
             Inl e \<Rightarrow> ([], Inl e)
           | Inr None \<Rightarrow> ([''Section '' @ sectionId @ '' not found''], Inr d)
           | Inr (Some i) \<Rightarrow>
               (case get_prop blockTemplate ''type'' of
                  Inl e \<Rightarrow> ([], Inl e)
                | Inr ty \<Rightarrow>
                    (let prefix = (case ty of
                                     None \<Rightarrow> None
                                   | Some (JStr t) \<Rightarrow> Some t
                                   | Some x \<Rightarrow> Some (ToString rt x));
                         newBlock = JObj (fmupd ''id'' (JStr (uid prefix rendering))
                                            (spread (Some blockTemplate)))
                     in case array_prop (sections ! i) ''blocks'' of
                          Inl e \<Rightarrow> ([], Inl e)
                        | Inr blocks \<Rightarrow>
                            ([], Inr (with_section newDoc i
                                   (with_own (sections ! i) ''blocks'' (JArr (blocks @ [newBlock])))))))))"

definition addBlock :: "runtime \<Rightarrow> int \<Rightarrow> string \<Rightarrow> string \<Rightarrow> json \<Rightarrow> store \<Rightarrow> error + store" where
  "addBlock rt now rendering sectionId blockTemplate s =
     setDoc now (Fn (addBlock_updater rt rendering sectionId blockTemplate)) s"

text \<open>
  \<^verbatim>\<open>removeBlock\<close>. A missing section is logged; a block id that no block of the
  section has is not: the filter keeps every block and nothing is logged.
\<close>

definition removeBlock_updater ::
  "string \<Rightarrow> string \<Rightarrow> json \<Rightarrow> string list \<times> (error + json)" where
  "removeBlock_updater sectionId blockId d =
     (let newDoc = deep_clone d in
      case array_prop newDoc ''sections'' of
        Inl e \<Rightarrow> ([], Inl e)
      | Inr sections \<Rightarrow>
          (case find_by_id sections sectionId of
             Inl e \<Rightarrow> ([], Inl e)
           | Inr None \<Rightarrow> ([''Section '' @ sectionId @ '' not found''], Inr d)
           | Inr (Some i) \<Rightarrow>
               (case array_prop (sections ! i) ''blocks'' of
                  Inl e \<Rightarrow> ([], Inl e)
                | Inr blocks \<Rightarrow>
                    (case filter_out_id blocks blockId of
                       Inl e \<Rightarrow> ([], Inl e)
                     | Inr kept \<Rightarrow>
                         ([], Inr (with_section newDoc i
                                (with_own (sections ! i) ''blocks'' (JArr kept))))))))"

definition removeBlock :: "int \<Rightarrow> string \<Rightarrow> string \<Rightarrow> store \<Rightarrow> error + store" where
  "removeBlock now sectionId blockId s =
     setDoc now (Fn (removeBlock_updater sectionId blockId)) s"

text \<open>
  \<^verbatim>\<open>reorderSections\<close>. \<^verbatim>\<open>new Map(entries)\<close> sets the entries in order, so a later
  entry replaces an earlier one under the same key, and \<^verbatim>\<open>get\<close> answers with the value
  set last. The keys looked up are strings, for which the Map's key equality is equality
  of the strings. \<^verbatim>\<open>filter(Boolean)\<close> keeps the truthy results.
\<close>

fun section_entries :: "json list \<Rightarrow> error + (jsval \<times> json) list" where
  "section_entries [] = Inr []"
| "section_entries (x # xs) =
     (case get_prop x ''id'' of
        Inl e \<Rightarrow> Inl e
      | Inr k \<Rightarrow>
          (case section_entries xs of
             Inl e \<Rightarrow> Inl e
           | Inr r \<Rightarrow> Inr ((k, x) # r)))"

definition Map_get :: "(jsval \<times> json) list \<Rightarrow> jsval \<Rightarrow> jsval" where
  "Map_get entries k = map_of (rev entries) k"

definition reorderSections_updater :: "string list \<Rightarrow> json \<Rightarrow> error + json" where
  "reorderSections_updater newOrderIds d =
     (let newDoc = deep_clone d in
      case array_prop newDoc ''sections'' of
        Inl e \<Rightarrow> Inl e
      | Inr sections \<Rightarrow>
          (case section_entries sections of
             Inl e \<Rightarrow> Inl e
           | Inr sectionMap \<Rightarrow>
               Inr (with_own newDoc ''sections''
                      (JArr (map the (filter truthy
                         (map (\<lambda>i. Map_get sectionMap (Some (JStr i))) newOrderIds)))))))"

definition reorderSections :: "int \<Rightarrow> string list \<Rightarrow> store \<Rightarrow> error + store" where
  "reorderSections now newOrderIds s =
     setDoc now (Fn (silent (reorderSections_updater newOrderIds))) s"

text \<open>
  \<^verbatim>\<open>setTheme\<close>. Each of the three groups is
  \<^verbatim>\<open>{...doc.theme?.g, ...partialTheme.g}\<close>; the theme is
  \<^verbatim>\<open>{...doc.theme, ...partialTheme, colors, spacing, layout}\<close>. Like
  \<^verbatim>\<open>reorderSections\<close>, it logs nothing.
\<close>

definition merged_group :: "jsval \<Rightarrow> json \<Rightarrow> string \<Rightarrow> error + json" where
  "merged_group theme partialTheme g =
     (case opt_chain theme g of
        Inl e \<Rightarrow> Inl e
      | Inr old \<Rightarrow>
          (case get_prop partialTheme g of
             Inl e \<Rightarrow> Inl e
           | Inr new \<Rightarrow> Inr (JObj (fmadd (spread old) (spread new)))))"

definition setTheme_updater :: "json \<Rightarrow> json \<Rightarrow> error + json" where
  "setTheme_updater partialTheme d =
     (case get_prop d ''theme'' of
        Inl e \<Rightarrow> Inl e
      | Inr theme \<Rightarrow>
          (case merged_group theme partialTheme ''colors'' of
             Inl e \<Rightarrow> Inl e
           | Inr colors \<Rightarrow>
               (case merged_group theme partialTheme ''spacing'' of
                  Inl e \<Rightarrow> Inl e
                | Inr spacing \<Rightarrow>
                    (case merged_group theme partialTheme ''layout'' of
                       Inl e \<Rightarrow> Inl e
                     | Inr layout \<Rightarrow>
                         Inr (JObj (fmupd ''theme''
                                (JObj (fmupd ''layout'' layout
                                        (fmupd ''spacing'' spacing
                                          (fmupd ''colors'' colors
                                            (fmadd (spread theme) (spread (Some partialTheme)))))))
                                (spread (Some d))))))))"

definition setTheme :: "int \<Rightarrow> json \<Rightarrow> store \<Rightarrow> error + store" where
  "setTheme now partialTheme s = setDoc now (Fn (silent (setTheme_updater partialTheme))) s"

definition setTemplate :: "string \<Rightarrow> store \<Rightarrow> store" where
  "setTemplate t s = s\<lparr>template := t\<rparr>"

text \<open>
  \<^verbatim>\<open>resetToSample\<close>: \<^verbatim>\<open>removeItem\<close>, then \<^verbatim>\<open>set\<close> with the sample under a new
  id and the two clock readings. Neither \<^verbatim>\<open>clearTimeout\<close> nor \<^verbatim>\<open>saveToStorage\<close>
  is called.
\<close>

definition resetToSample :: "runtime \<Rightarrow> int \<Rightarrow> int \<Rightarrow> string \<Rightarrow> store \<Rightarrow> store" where
  "resetToSample rt createdAt updatedAt rendering s =
     s\<lparr>item := None,
       doc := JObj (fmupd ''meta''
                (JObj (fmupd ''updatedAt'' (JNum updatedAt)
                        (fmupd ''createdAt'' (JNum createdAt)
                          (spread (fmlookup (sampleResume rt) ''meta'')))))
                (fmupd ''id'' (JStr (uid (Some ''resume'') rendering)) (sampleResume rt))),
       template := ''classic''\<rparr>"

subsection \<open>Calls over time\<close>

text \<open>
  A call into the store at time \<open>t\<close> runs after the timers due by \<open>t\<close>. A call that
  throws changes nothing but the console. A call that ends in \<open>Unmodelled\<close> is not
  taken for one that threw: the store is marked \<open>outside_model\<close>. \<open>commit_burst\<close>
  is a sequence of \<^verbatim>\<open>setDoc\<close> calls, each with its time.
\<close>

definition setDoc_at :: "runtime \<Rightarrow> int \<Rightarrow> updater \<Rightarrow> store \<Rightarrow> store" where
  "setDoc_at rt t upd s =
     (case setDoc t upd (advance rt t s) of
        Inl e \<Rightarrow>
          (advance rt t s)
            \<lparr>console := console (advance rt t s) @ fst (run_updater upd (doc (advance rt t s))),
             outside_model := (outside_model (advance rt t s) \<or> e = Unmodelled)\<rparr>
      | Inr s' \<Rightarrow> s')"

fun commit_burst :: "runtime \<Rightarrow> (int \<times> updater) list \<Rightarrow> store \<Rightarrow> store" where
  "commit_burst rt [] s = s"
| "commit_burst rt ((t, upd) # cs) s = commit_burst rt cs (setDoc_at rt t upd s)"

text \<open>
  The pending timers are at most the one \<^verbatim>\<open>saveTimeout\<close> names, and handles are not
  reused. This holds when the store is created and after every call.
\<close>

definition timers_tracked :: "store \<Rightarrow> bool" where
  "timers_tracked s =
     (case timers s of
        [] \<Rightarrow> True
      | [tm] \<Rightarrow> saveTimeout s = Some (fst tm) \<and> fst tm < next_timer s
      | _ \<Rightarrow> False)"

text \<open>No pending timer is due by \<open>t\<close>.\<close>

definition none_due :: "int \<Rightarrow> store \<Rightarrow> bool" where
  "none_due t s = list_all (\<lambda>tm. t < fst (snd tm)) (timers s)"

text \<open>Successive times that are less than the debounce delay apart.\<close>

fun within_delay :: "int list \<Rightarrow> bool" where
  "within_delay (t # t' # ts) = (t \<le> t' \<and> t' - t < AUTOSAVE_DELAY \<and> within_delay (t' # ts))"
| "within_delay ts = True"

text \<open>
  Every call of the sequence commits, that is, returns. (A \<^verbatim>\<open>setDoc\<close> call throws
  when the updater throws or gives \<^verbatim>\<open>null\<close>.)
\<close>

fun all_commit :: "runtime \<Rightarrow> (int \<times> updater) list \<Rightarrow> store \<Rightarrow> bool" where
  "all_commit rt [] s = True"
| "all_commit rt ((t, upd) # cs) s =
     (case setDoc t upd (advance rt t s) of
        Inl e \<Rightarrow> False
      | Inr s' \<Rightarrow> all_commit rt cs s')"

section \<open>Documents (typedefs of src/lib/schema/resume.ts)\<close>

definition is_string :: "jsval \<Rightarrow> bool" where
  "is_string v = (case v of Some (JStr s) \<Rightarrow> True | _ \<Rightarrow> False)"

definition is_number :: "jsval \<Rightarrow> bool" where
  "is_number v = (case v of Some (JNum n) \<Rightarrow> True | _ \<Rightarrow> False)"

definition is_record :: "jsval \<Rightarrow> bool" where
  "is_record v = (case v of Some (JObj m) \<Rightarrow> True | _ \<Rightarrow> False)"

fun is_Block :: "json \<Rightarrow> bool" where
  "is_Block (JObj m) =
     (is_string (fmlookup m ''id'') \<and> is_string (fmlookup m ''type'')
      \<and> is_record (fmlookup m ''fields''))"
| "is_Block x = False"

fun is_Section :: "json \<Rightarrow> bool" where
  "is_Section (JObj m) =
     (is_string (fmlookup m ''id'') \<and> is_string (fmlookup m ''type'')
      \<and> is_string (fmlookup m ''title'')
      \<and> (case fmlookup m ''blocks'' of Some (JArr bs) \<Rightarrow> list_all is_Block bs | _ \<Rightarrow> False)
      \<and> (case fmlookup m ''hidden'' of None \<Rightarrow> True | Some (JBool b) \<Rightarrow> True | _ \<Rightarrow> False))"
| "is_Section x = False"

fun is_Meta :: "jsval \<Rightarrow> bool" where
  "is_Meta (Some (JObj m)) =
     (is_string (fmlookup m ''title'') \<and> is_number (fmlookup m ''createdAt'')
      \<and> is_number (fmlookup m ''updatedAt''))"
| "is_Meta v = False"

fun is_ResumeDoc :: "json \<Rightarrow> bool" where
  "is_ResumeDoc (JObj m) =
     (is_string (fmlookup m ''id'') \<and> is_Meta (fmlookup m ''meta'')
      \<and> is_record (fmlookup m ''theme'')
      \<and> (case fmlookup m ''sections'' of Some (JArr ss) \<Rightarrow> list_all is_Section ss | _ \<Rightarrow> False))"
| "is_ResumeDoc x = False"

text \<open>Readers used to state the theorems.\<close>

definition id_of :: "json \<Rightarrow> jsval" where
  "id_of x = (case x of JObj m \<Rightarrow> fmlookup m ''id'' | _ \<Rightarrow> None)"

definition sections_of :: "json \<Rightarrow> json list" where
  "sections_of d =
     (case d of
        JObj m \<Rightarrow> (case fmlookup m ''sections'' of Some (JArr ss) \<Rightarrow> ss | _ \<Rightarrow> [])
      | _ \<Rightarrow> [])"

definition blocks_of :: "json \<Rightarrow> json list" where
  "blocks_of x =
     (case x of
        JObj m \<Rightarrow> (case fmlookup m ''blocks'' of Some (JArr bs) \<Rightarrow> bs | _ \<Rightarrow> [])
      | _ \<Rightarrow> [])"

definition has_id :: "string \<Rightarrow> json \<Rightarrow> bool" where
  "has_id i x = (id_of x = Some (JStr i))"

text \<open>\<open>own v k\<close>: the own property \<open>k\<close> of \<open>v\<close>, as an object spread sees it.\<close>

definition own :: "jsval \<Rightarrow> string \<Rightarrow> jsval" where
  "own v k = fmlookup (spread v) k"

section \<open>Examples used in the theorems\<close>

text \<open>
  A runtime whose \<^verbatim>\<open>JSON.parse\<close> knows one text, \<^verbatim>\<open>{"id":1,"sections":[]}\<close>,
  whose sample is the empty object, and whose \<^verbatim>\<open>JSON.stringify\<close> is cut down to the
  document's \<^verbatim>\<open>id\<close>, which is enough to tell the example documents apart.
\<close>

definition example_runtime :: runtime where
  \<open>example_runtime =
     \<lparr>sampleResume = fmempty,
      JSON_stringify = (\<lambda>j. case own (Some j) ''id'' of Some (JStr i) \<Rightarrow> i | _ \<Rightarrow> ''?''),
      JSON_parse = (\<lambda>t. if t = ''{"id":1,"sections":[]}''
                         then Some (JObj (fmupd ''id'' (JNum 1) (fmupd ''sections'' (JArr []) fmempty)))
                         else None),
      setItem_throws = (\<lambda>t. False),
      ToString = (\<lambda>j. ''string'')\<rparr>\<close>

text \<open>The colours of property P4 of the specification, its patch and its result.\<close>

definition P4_colors :: "(string, json) fmap" where
  "P4_colors = fmupd ''primary'' (JStr ''#000'') (fmupd ''accent'' (JStr ''#fff'')
                 (fmupd ''muted'' (JStr ''#888'') fmempty))"

definition P4_patch :: json where
  "P4_patch = JObj (fmupd ''colors'' (JObj (fmupd ''accent'' (JStr ''#111'') fmempty)) fmempty)"

definition P4_result :: "(string, json) fmap" where
  "P4_result = fmupd ''primary'' (JStr ''#000'') (fmupd ''accent'' (JStr ''#111'')
                 (fmupd ''muted'' (JStr ''#888'') fmempty))"

text \<open>
  A small document of the shape the typedefs give, with \<^verbatim>\<open>meta.updatedAt\<close> as a
  parameter: three sections \<^verbatim>\<open>s1\<close>,
  \<^verbatim>\<open>s2\<close>, \<^verbatim>\<open>s3\<close>, the first with one block \<^verbatim>\<open>b1\<close>; and the store that holds a
  document, with nothing stored and no timer set.
\<close>

definition example_block :: "string \<Rightarrow> json" where
  "example_block i =
     JObj (fmupd ''id'' (JStr i) (fmupd ''type'' (JStr ''experience'')
            (fmupd ''fields'' (JObj (fmupd ''role'' (JStr ''Dev'') fmempty)) fmempty)))"

definition example_section :: "string \<Rightarrow> json list \<Rightarrow> json" where
  "example_section i bs =
     JObj (fmupd ''id'' (JStr i) (fmupd ''type'' (JStr ''experience'')
            (fmupd ''title'' (JStr ''Experience'') (fmupd ''blocks'' (JArr bs) fmempty))))"

definition example_doc_at :: "int \<Rightarrow> json" where
  "example_doc_at u =
     JObj (fmupd ''id'' (JStr ''doc'')
            (fmupd ''meta'' (JObj (fmupd ''title'' (JStr ''Resume'')
                                    (fmupd ''createdAt'' (JNum 0) (fmupd ''updatedAt'' (JNum u) fmempty))))
              (fmupd ''theme'' (JObj fmempty)
                (fmupd ''sections''
                   (JArr [example_section ''s1'' [example_block ''b1''],
                          example_section ''s2'' [], example_section ''s3'' []])
                   fmempty))))"

definition example_doc :: json where
  "example_doc = example_doc_at 0"

text \<open>The block template of the specification's end-to-end scenario.\<close>

definition example_template :: "(string, json) fmap" where
  "example_template =
     fmupd ''id'' (JStr ''tmp'') (fmupd ''type'' (JStr ''experience'')
       (fmupd ''fields'' (JObj (fmupd ''role'' (JStr ''Eng'') fmempty)) fmempty))"

definition store_of :: "json \<Rightarrow> store" where
  "store_of d =
     \<lparr>doc = d, template = ''classic'', item = None, timers = [], saveTimeout = None,
      next_timer = 0, writes = [], console = [], outside_model = False\<rparr>"

text \<open>
  Three commits at times 0, 100 and 599, the last through an updater function; and the
  store right after a commit of the example document at time 0.
\<close>

definition example_burst :: "(int \<times> updater) list" where
  "example_burst =
     [(0, Direct (JObj (fmupd ''id'' (JStr ''a'') fmempty))),
      (100, Direct (JObj (fmupd ''id'' (JStr ''b'') fmempty))),
      (599, Fn (\<lambda>d. ([], Inr (JObj (fmupd ''id'' (JStr ''c'') fmempty)))))]"

definition example_pending :: store where
  "example_pending = saveToStorage 0 (example_doc_at 0) (store_of (example_doc_at 0))"

text \<open>A store whose document has only a theme: a font family and the colours of P4.\<close>

definition example_store :: store where
  "example_store =
     \<lparr>doc = JObj (fmupd ''theme''
              (JObj (fmupd ''fontFamily'' (JStr ''Inter'') (fmupd ''colors'' (JObj P4_colors) fmempty)))
              fmempty),
      template = ''classic'', item = None, timers = [], saveTimeout = None, next_timer = 0,
      writes = [], console = [], outside_model = False\<rparr>"

text \<open>
  The path setter as the specification words it, on a record: every key but the last
  descends, and a slot that is absent or holds anything but a record is first replaced by
  a new empty record; the last key is assigned. Only \<open>JObj\<close> is a record here; a
  sequence (\<open>JArr\<close>) is a non-record value.
\<close>

fun spec_path_set :: "(string, json) fmap \<Rightarrow> string list \<Rightarrow> json \<Rightarrow> (string, json) fmap" where
  "spec_path_set m [] v = m"
| "spec_path_set m [k] v = fmupd k v m"
| "spec_path_set m (k # ks) v =
     fmupd k (JObj (spec_path_set (case fmlookup m k of Some (JObj c) \<Rightarrow> c | _ \<Rightarrow> fmempty) ks v)) m"

section \<open>Facts about the path setter\<close>

lemma split_on_nonempty: "split_on c s \<noteq> []"
  by (induction s) (auto split: list.splits)

lemma split_on_no_sep: "c \<notin> set k \<Longrightarrow> split_on c k = [k]"
  by (induction k) auto

lemma split_on_append: "c \<notin> set k \<Longrightarrow> split_on c (k @ c # rest) = k # split_on c rest"
  by (induction k) (auto split: list.splits)

lemma needs_repair_iff:
  "needs_repair slot \<longleftrightarrow> (\<forall>c. slot \<noteq> Some (JObj c)) \<and> (\<forall>xs. slot \<noteq> Some (JArr xs))"
proof (cases slot)
  case None
  then show ?thesis by (simp add: needs_repair_def)
next
  case (Some j)
  then show ?thesis by (cases j) (simp_all add: needs_repair_def)
qed

text \<open>Decimal numerals are the index keys.\<close>

lemma digit_char_code: "d < 10 \<Longrightarrow> (of_char (digit_char d) :: nat) = 48 + d"
proof -
  assume "d < 10"
  then have "d \<in> {0, 1, 2, 3, 4, 5, 6, 7, 8, 9}" by auto
  then show ?thesis by (auto simp: digit_char_def)
qed

lemma digits_value_snoc:
  "digits_value (s @ [c]) = 10 * digits_value s + ((of_char c :: nat) - 48)"
  by (simp add: digits_value_def)

lemma decimal_nonempty: "decimal n \<noteq> []"
  by (subst decimal.simps) simp

lemma digits_value_decimal: "digits_value (decimal n) = n"
proof (induction n rule: decimal.induct)
  case (1 n)
  show ?case
  proof (cases "n < 10")
    case True
    then show ?thesis
      by (subst decimal.simps) (simp add: digits_value_def digit_char_code)
  next
    case False
    with 1 show ?thesis
      by (subst decimal.simps) (simp add: digits_value_snoc digit_char_code)
  qed
qed

lemma is_digit_decimal: "list_all is_digit (decimal n)"
proof (induction n rule: decimal.induct)
  case (1 n)
  show ?case
  proof (cases "n < 10")
    case True
    then show ?thesis
      by (subst decimal.simps) (simp add: is_digit_def digit_char_code)
  next
    case False
    have "is_digit (digit_char (n mod 10))"
      by (simp add: is_digit_def digit_char_code)
    with 1 False show ?thesis
      by (subst decimal.simps) simp
  qed
qed

lemma hd_decimal: "0 < n \<Longrightarrow> (of_char (hd (decimal n)) :: nat) \<noteq> 48"
proof (induction n rule: decimal.induct)
  case (1 n)
  show ?case
  proof (cases "n < 10")
    case True
    with 1(2) show ?thesis
      by (subst decimal.simps) (simp add: digit_char_code)
  next
    case False
    then have "0 < n div 10" by simp
    with 1(1) False have "(of_char (hd (decimal (n div 10))) :: nat) \<noteq> 48" by simp
    with False show ?thesis
      by (subst decimal.simps) (simp add: decimal_nonempty)
  qed
qed

lemma decimal_zero: "decimal 0 = ''0''"
  by (subst decimal.simps) (simp add: digit_char_def)

lemma array_index_decimal: "i < 4294967295 \<Longrightarrow> array_index (decimal i) = Some i"
proof (cases "i = 0")
  case True
  then show ?thesis
    by (simp add: decimal_zero array_index_def is_digit_def digits_value_def)
next
  case False
  assume "i < 4294967295"
  moreover from False have "hd (decimal i) \<noteq> CHR ''0''"
    using hd_decimal [of i] by auto
  ultimately show ?thesis
    by (simp add: array_index_def decimal_nonempty is_digit_decimal digits_value_decimal)
qed

lemma decimal_no_dot: "CHR ''.'' \<notin> set (decimal i)"
proof
  assume "CHR ''.'' \<in> set (decimal i)"
  with is_digit_decimal [of i] have "is_digit CHR ''.''" by (simp add: list_all_iff)
  then show False by (simp add: is_digit_def)
qed

lemma decimal_not_proto: "decimal i \<noteq> proto_key"
proof
  assume "decimal i = proto_key"
  with is_digit_decimal [of i] have "list_all is_digit proto_key" by simp
  then show False by (simp add: proto_key_def is_digit_def)
qed

lemma deepSet_loop_step_obj:
  assumes "k \<noteq> proto_key" and "ks \<noteq> []"
  shows "deepSet_loop (JObj m) (k # ks) v =
           (case deepSet_loop (if needs_repair (fmlookup m k) then JObj fmempty else the (fmlookup m k)) ks v of
              Inl e \<Rightarrow> Inl e
            | Inr child \<Rightarrow> Inr (JObj (fmupd k child m)))"
proof -
  from assms(2) obtain w ws where ks: "ks = w # ws" by (cases ks) auto
  show ?thesis using assms(1) by (simp add: ks with_slot_def split: sum.splits)
qed

lemma deepSet_loop_step_arr:
  assumes "array_index k = Some i" and "k \<noteq> proto_key" and "i \<le> length xs" and "ks \<noteq> []"
  shows "deepSet_loop (JArr xs) (k # ks) v =
           (case deepSet_loop
                   (if needs_repair (if i < length xs then Some (xs ! i) else None)
                    then JObj fmempty else xs ! i) ks v of
              Inl e \<Rightarrow> Inl e
            | Inr child \<Rightarrow> Inr (JArr (if i < length xs then xs[i := child] else xs @ [child])))"
proof -
  from assms(4) obtain w ws where ks: "ks = w # ws" by (cases ks) auto
  show ?thesis
    using assms(1-3)
    by (auto simp: ks with_slot_def needs_repair_def split: sum.splits)
qed

lemma deepSet_container:
  "deepSet (Some (JObj m)) (Some (JStr p)) v = deepSet_loop (JObj m) (split_on CHR ''.'' p) v"
  "deepSet (Some (JArr xs)) (Some (JStr p)) v = deepSet_loop (JArr xs) (split_on CHR ''.'' p) v"
  by (simp_all add: deepSet_def)

lemma kept_slot:
  "(if needs_repair slot then JObj fmempty else the slot) =
     (case slot of Some (JObj c) \<Rightarrow> JObj c | Some (JArr ys) \<Rightarrow> JArr ys | _ \<Rightarrow> JObj fmempty)"
  by (auto simp: needs_repair_iff split: option.splits json.splits)

lemma deepSet_kept:
  "deepSet (Some (case slot of Some (JObj c) \<Rightarrow> JObj c | Some (JArr ys) \<Rightarrow> JArr ys | _ \<Rightarrow> JObj fmempty))
      (Some (JStr rest)) v
   = deepSet_loop (case slot of Some (JObj c) \<Rightarrow> JObj c | Some (JArr ys) \<Rightarrow> JArr ys | _ \<Rightarrow> JObj fmempty)
      (split_on CHR ''.'' rest) v"
  by (auto simp: deepSet_container split: option.splits json.splits)

text \<open>
  C2, as the code has it. Take a key \<open>k\<close> without a dot and other than \<^verbatim>\<open>__proto__\<close>.
  On a record the one-key path \<open>k\<close> assigns \<open>v\<close> at \<open>k\<close>, whatever was there. The
  path \<open>k.rest\<close> descends into the slot at \<open>k\<close>: the slot is kept when it holds a
  record or an array, and is replaced by a new empty record when it is absent or holds
  anything else (\<^verbatim>\<open>null\<close>, a boolean, a number, a string); the result has the
  outcome of \<open>rest\<close> on that slot at \<open>k\<close> and is as before at every other key, and an
  exception of \<open>rest\<close> comes out unchanged. On an array the same holds for an index
  \<open>i\<close> up to the length of the array (and below 4294967295), written in decimal:
  the one-key path replaces element \<open>i\<close>, or appends when \<open>i\<close> is the length; the
  longer path descends into the element, kept or replaced in the same way, and puts the
  outcome at \<open>i\<close>, or appends it. And the path \<^verbatim>\<open>a.b.c\<close> on \<^verbatim>\<open>{}\<close> gives
  \<^verbatim>\<open>{a:{b:{c:v}}}\<close> for every \<open>v\<close>.
\<close>

theorem deepSet_descends_and_repairs:
  assumes "CHR ''.'' \<notin> set k" and "k \<noteq> ''__proto__''"
  shows "deepSet (Some (JObj m)) (Some (JStr k)) v = Inr (JObj (fmupd k v m))
       \<and> deepSet (Some (JObj m)) (Some (JStr (k @ ''.'' @ rest))) v =
           (case deepSet
                   (Some (case fmlookup m k of
                            Some (JObj c) \<Rightarrow> JObj c
                          | Some (JArr ys) \<Rightarrow> JArr ys
                          | _ \<Rightarrow> JObj fmempty))
                   (Some (JStr rest)) v of
              Inl e \<Rightarrow> Inl e
            | Inr child \<Rightarrow> Inr (JObj (fmupd k child m)))
       \<and> (\<forall>i. i \<le> length xs \<and> i < 4294967295 \<longrightarrow>
             deepSet (Some (JArr xs)) (Some (JStr (decimal i))) v =
               Inr (JArr (if i < length xs then xs[i := v] else xs @ [v]))
           \<and> deepSet (Some (JArr xs)) (Some (JStr (decimal i @ ''.'' @ rest))) v =
               (case deepSet
                       (Some (case (if i < length xs then Some (xs ! i) else None) of
                                Some (JObj c) \<Rightarrow> JObj c
                              | Some (JArr ys) \<Rightarrow> JArr ys
                              | _ \<Rightarrow> JObj fmempty))
                       (Some (JStr rest)) v of
                  Inl e \<Rightarrow> Inl e
                | Inr child \<Rightarrow>
                    Inr (JArr (if i < length xs then xs[i := child] else xs @ [child]))))
       \<and> deepSet (Some (JObj fmempty)) (Some (JStr ''a.b.c'')) v =
           Inr (JObj (fmupd ''a'' (JObj (fmupd ''b'' (JObj (fmupd ''c'' v fmempty)) fmempty)) fmempty))"
proof (intro conjI allI impI)
  from assms show "deepSet (Some (JObj m)) (Some (JStr k)) v = Inr (JObj (fmupd k v m))"
    by (simp add: deepSet_container split_on_no_sep proto_key_def)
next
  let ?slot = "fmlookup m k"
  let ?kept = "case ?slot of Some (JObj c) \<Rightarrow> JObj c | Some (JArr ys) \<Rightarrow> JArr ys | _ \<Rightarrow> JObj fmempty"
  have "deepSet (Some (JObj m)) (Some (JStr (k @ ''.'' @ rest))) v =
          deepSet_loop (JObj m) (k # split_on CHR ''.'' rest) v"
    using assms(1) by (simp add: deepSet_container split_on_append)
  also have "\<dots> = (case deepSet_loop ?kept (split_on CHR ''.'' rest) v of
                      Inl e \<Rightarrow> Inl e
                    | Inr child \<Rightarrow> Inr (JObj (fmupd k child m)))"
    using assms(2) deepSet_loop_step_obj [of k "split_on CHR ''.'' rest" m v]
      split_on_nonempty [of "CHR ''.''" rest]
    by (simp only: proto_key_def kept_slot) simp
  finally show "deepSet (Some (JObj m)) (Some (JStr (k @ ''.'' @ rest))) v =
           (case deepSet (Some ?kept) (Some (JStr rest)) v of
              Inl e \<Rightarrow> Inl e
            | Inr child \<Rightarrow> Inr (JObj (fmupd k child m)))"
    by (simp only: deepSet_kept)
next
  fix i assume i: "i \<le> length xs \<and> i < 4294967295"
  then have ix: "array_index (decimal i) = Some i" by (simp add: array_index_decimal)
  show "deepSet (Some (JArr xs)) (Some (JStr (decimal i))) v =
          Inr (JArr (if i < length xs then xs[i := v] else xs @ [v]))"
    using i ix decimal_not_proto [of i]
    by (auto simp: deepSet_container split_on_no_sep decimal_no_dot)
next
  fix i assume i: "i \<le> length xs \<and> i < 4294967295"
  then have ix: "array_index (decimal i) = Some i" by (simp add: array_index_decimal)
  let ?slot = "if i < length xs then Some (xs ! i) else None"
  let ?kept = "case ?slot of Some (JObj c) \<Rightarrow> JObj c | Some (JArr ys) \<Rightarrow> JArr ys | _ \<Rightarrow> JObj fmempty"
  have k: "(if needs_repair ?slot then JObj fmempty else xs ! i) = ?kept"
    using kept_slot [of ?slot] by (auto simp: needs_repair_def)
  have "deepSet (Some (JArr xs)) (Some (JStr (decimal i @ ''.'' @ rest))) v =
          deepSet_loop (JArr xs) (decimal i # split_on CHR ''.'' rest) v"
    by (simp add: deepSet_container split_on_append decimal_no_dot)
  also have "\<dots> = (case deepSet_loop ?kept (split_on CHR ''.'' rest) v of
                      Inl e \<Rightarrow> Inl e
                    | Inr child \<Rightarrow> Inr (JArr (if i < length xs then xs[i := child] else xs @ [child])))"
    using deepSet_loop_step_arr [OF ix decimal_not_proto _ split_on_nonempty, of xs "CHR ''.''" rest v] i
    by (simp only: k)
  finally show "deepSet (Some (JArr xs)) (Some (JStr (decimal i @ ''.'' @ rest))) v =
               (case deepSet (Some ?kept) (Some (JStr rest)) v of
                  Inl e \<Rightarrow> Inl e
                | Inr child \<Rightarrow>
                    Inr (JArr (if i < length xs then xs[i := child] else xs @ [child])))"
    by (simp only: deepSet_kept)
next
  show "deepSet (Some (JObj fmempty)) (Some (JStr ''a.b.c'')) v =
          Inr (JObj (fmupd ''a'' (JObj (fmupd ''b'' (JObj (fmupd ''c'' v fmempty)) fmempty)) fmempty))"
    by (simp add: deepSet_def needs_repair_def proto_key_def with_slot_def)
qed

lemma decimal_one: "decimal (Suc 0) = ''1''"
  by (subst decimal.simps) (simp add: digit_char_def)

text \<open>
  The theorem at \<^verbatim>\<open>{n: 5, a: [7]}\<close> and at \<^verbatim>\<open>[7]\<close>: the number under \<^verbatim>\<open>n\<close> is
  replaced by a record, the array under \<^verbatim>\<open>a\<close> is kept and its element 0 assigned,
  and the path \<^verbatim>\<open>1.y\<close> appends a new record to \<^verbatim>\<open>[7]\<close>.
\<close>

theorem deepSet_descends_and_repairs_witness:
  "CHR ''.'' \<notin> set ''n'' \<and> ''n'' \<noteq> ''__proto__''
   \<and> deepSet (Some (JObj (fmupd ''n'' (JNum 5) (fmupd ''a'' (JArr [JNum 7]) fmempty))))
        (Some (JStr ''n.x'')) JNull
       = Inr (JObj (fmupd ''n'' (JObj (fmupd ''x'' JNull fmempty))
                (fmupd ''n'' (JNum 5) (fmupd ''a'' (JArr [JNum 7]) fmempty))))
   \<and> CHR ''.'' \<notin> set ''a'' \<and> ''a'' \<noteq> ''__proto__''
   \<and> (0::nat) \<le> length [JNum 7] \<and> (0::nat) < 4294967295
   \<and> deepSet (Some (JObj (fmupd ''n'' (JNum 5) (fmupd ''a'' (JArr [JNum 7]) fmempty))))
        (Some (JStr ''a.0'')) (JNum 1)
       = Inr (JObj (fmupd ''a'' (JArr [JNum 1])
                (fmupd ''n'' (JNum 5) (fmupd ''a'' (JArr [JNum 7]) fmempty))))
   \<and> (1::nat) \<le> length [JNum 7] \<and> (1::nat) < 4294967295
   \<and> deepSet (Some (JArr [JNum 7])) (Some (JStr ''1.y'')) JNull
       = Inr (JArr [JNum 7, JObj (fmupd ''y'' JNull fmempty)])"
proof -
  let ?m = "fmupd ''n'' (JNum 5) (fmupd ''a'' (JArr [JNum 7]) fmempty)"
  have a: "CHR ''.'' \<notin> set ''n''" and b: "''n'' \<noteq> ''__proto__''" by simp_all
  have x: "CHR ''.'' \<notin> set ''x''" and y: "''x'' \<noteq> ''__proto__''" by simp_all
  have c: "CHR ''.'' \<notin> set ''a''" and d: "''a'' \<noteq> ''__proto__''" by simp_all
  have p: "CHR ''.'' \<notin> set ''y''" and q: "''y'' \<noteq> ''__proto__''" by simp_all
  have i0: "(0::nat) \<le> length [JNum 7] \<and> (0::nat) < 4294967295" by simp
  have i1: "(1::nat) \<le> length [JNum 7] \<and> (1::nat) < 4294967295" by simp
  note outer = deepSet_descends_and_repairs [OF a b, of ?m JNull "''x''"]
  note inner = deepSet_descends_and_repairs [OF x y, of fmempty JNull]
  note arr = deepSet_descends_and_repairs [OF c d, of ?m "JNum 1" "''0''" "[JNum 7]"]
  note leaf = deepSet_descends_and_repairs [OF p q, of fmempty JNull "''y''" "[JNum 7]"]
  from arr i0 have elem: "deepSet (Some (JArr [JNum 7])) (Some (JStr ''0'')) (JNum 1) = Inr (JArr [JNum 1])"
    using decimal_zero by auto
  from leaf have fresh: "deepSet (Some (JObj fmempty)) (Some (JStr ''y'')) JNull
      = Inr (JObj (fmupd ''y'' JNull fmempty))" by blast
  from leaf i1 have app: "deepSet (Some (JArr [JNum 7])) (Some (JStr (decimal 1 @ ''.'' @ ''y''))) JNull
      = (case deepSet (Some (JObj fmempty)) (Some (JStr ''y'')) JNull of
           Inl e \<Rightarrow> Inl e | Inr child \<Rightarrow> Inr (JArr ([JNum 7] @ [child])))"
    by auto
  from outer inner have one: "deepSet (Some (JObj ?m)) (Some (JStr ''n.x'')) JNull
       = Inr (JObj (fmupd ''n'' (JObj (fmupd ''x'' JNull fmempty)) ?m))"
    by simp
  from arr elem have two: "deepSet (Some (JObj ?m)) (Some (JStr ''a.0'')) (JNum 1)
       = Inr (JObj (fmupd ''a'' (JArr [JNum 1]) ?m))"
    by simp
  from app fresh have three: "deepSet (Some (JArr [JNum 7])) (Some (JStr ''1.y'')) JNull
       = Inr (JArr [JNum 7, JObj (fmupd ''y'' JNull fmempty)])"
    by (simp add: decimal_one)
  from a b c d i0 i1 one two three show ?thesis by blast
qed

text \<open>
  C2 as stated fails in three ways. An array is not a record, and it is kept: the
  path \<^verbatim>\<open>a.0\<close> on \<^verbatim>\<open>{a: [7]}\<close> gives \<^verbatim>\<open>{a: [1]}\<close>, where replacing every
  non-record slot, as \<open>spec_path_set\<close> does, gives \<^verbatim>\<open>{a: {0: 1}}\<close>. The final
  assignment does not always store the value: the path \<^verbatim>\<open>__proto__\<close> on \<^verbatim>\<open>{}\<close>
  with the value 5 returns \<^verbatim>\<open>{}\<close>, with no such key. And it does not always
  return: the path \<^verbatim>\<open>a.length\<close> on \<^verbatim>\<open>{a: [7]}\<close> with the value \<^verbatim>\<open>{}\<close> throws
  a \<^verbatim>\<open>RangeError\<close>.
\<close>

theorem deepSet_keeps_array_counterexample:
  "deepSet (Some (JObj (fmupd ''a'' (JArr [JNum 7]) fmempty))) (Some (JStr ''a.0'')) (JNum 1)
     = Inr (JObj (fmupd ''a'' (JArr [JNum 1]) fmempty))
   \<and> spec_path_set (fmupd ''a'' (JArr [JNum 7]) fmempty) (split_on CHR ''.'' ''a.0'') (JNum 1)
     = fmupd ''a'' (JObj (fmupd ''0'' (JNum 1) fmempty)) fmempty
   \<and> deepSet (Some (JObj (fmupd ''a'' (JArr [JNum 7]) fmempty))) (Some (JStr ''a.0'')) (JNum 1)
     \<noteq> Inr (JObj (spec_path_set (fmupd ''a'' (JArr [JNum 7]) fmempty)
                     (split_on CHR ''.'' ''a.0'') (JNum 1)))
   \<and> deepSet (Some (JObj fmempty)) (Some (JStr ''__proto__'')) (JNum 5) = Inr (JObj fmempty)
   \<and> spec_path_set fmempty (split_on CHR ''.'' ''__proto__'') (JNum 5)
     = fmupd ''__proto__'' (JNum 5) fmempty
   \<and> fmlookup (fmempty :: (string, json) fmap) ''__proto__'' \<noteq> Some (JNum 5)
   \<and> deepSet (Some (JObj (fmupd ''a'' (JArr [JNum 7]) fmempty))) (Some (JStr ''a.length'')) (JObj fmempty)
     = Inl RangeError"
proof -
  have code: "deepSet (Some (JObj (fmupd ''a'' (JArr [JNum 7]) fmempty))) (Some (JStr ''a.0'')) (JNum 1)
     = Inr (JObj (fmupd ''a'' (JArr [JNum 1]) fmempty))"
    by (simp add: deepSet_def needs_repair_def proto_key_def array_index_def is_digit_def
        digits_value_def with_slot_def)
  have spec: "spec_path_set (fmupd ''a'' (JArr [JNum 7]) fmempty) (split_on CHR ''.'' ''a.0'') (JNum 1)
     = fmupd ''a'' (JObj (fmupd ''0'' (JNum 1) fmempty)) fmempty"
    by simp
  have "fmlookup (fmupd ''a'' (JArr [JNum 1]) fmempty) ''a''
          \<noteq> fmlookup (fmupd ''a'' (JObj (fmupd ''0'' (JNum 1) fmempty)) fmempty) ''a''"
    by simp
  then have ne: "fmupd ''a'' (JArr [JNum 1]) fmempty
          \<noteq> fmupd ''a'' (JObj (fmupd ''0'' (JNum 1) fmempty)) fmempty"
    by metis
  have proto: "deepSet (Some (JObj fmempty)) (Some (JStr ''__proto__'')) (JNum 5) = Inr (JObj fmempty)"
    by (simp add: deepSet_def proto_key_def set_proto_def)
  have sproto: "spec_path_set fmempty (split_on CHR ''.'' ''__proto__'') (JNum 5)
     = fmupd ''__proto__'' (JNum 5) fmempty"
    by simp
  have len: "deepSet (Some (JObj (fmupd ''a'' (JArr [JNum 7]) fmempty))) (Some (JStr ''a.length'')) (JObj fmempty)
     = Inl RangeError"
    by (simp add: deepSet_def needs_repair_def proto_key_def array_index_def is_digit_def
        array_length_of_def)
  from code spec ne proto sproto len show ?thesis by simp
qed

text \<open>Further values of the setter on arrays, as the source computes them.\<close>

lemma deepSet_array_length_examples:
  "deepSet (Some (JObj (fmupd ''a'' (JArr [JNum 7, JNum 8]) fmempty))) (Some (JStr ''a.length'')) (JNum 0)
     = Inr (JObj (fmupd ''a'' (JArr []) fmempty))"
  "deepSet (Some (JObj (fmupd ''a'' (JArr [JNum 7, JNum 8]) fmempty))) (Some (JStr ''a.length'')) (JNum 1)
     = Inr (JObj (fmupd ''a'' (JArr [JNum 7]) fmempty))"
  "deepSet (Some (JObj (fmupd ''a'' (JArr [JNum 7]) fmempty))) (Some (JStr ''a.length.x'')) (JNum 1)
     = Inl RangeError"
  "deepSet (Some (JObj (fmupd ''a'' (JArr [JNum 7]) fmempty))) (Some (JStr ''a.length'')) (JNum (- 1))
     = Inl RangeError"
  by (simp_all add: deepSet_def needs_repair_def proto_key_def array_index_def is_digit_def
      array_length_of_def with_slot_def)

section \<open>Facts about identifiers\<close>

text \<open>
  C8, as the code has it. For the rendering \<open>r\<close> of a random number in \<open>[0, 1)\<close>,
  \<^verbatim>\<open>uid\<close> returns the prefix (\<^verbatim>\<open>id\<close> when omitted), an underscore and the
  characters 2 to 9 of \<open>r\<close>: base-36 digits, at most eight of them, eight when the
  rendering has at least eight digits after the point, and all of the digits when it has
  fewer.
\<close>

theorem uid_suffix_at_most_eight:
  assumes "base36_rendering r"
  shows "uid prefix r = (case prefix of None \<Rightarrow> ''id'' | Some p \<Rightarrow> p) @ ''_'' @ take 8 (drop 2 r)
       \<and> length (take 8 (drop 2 r)) \<le> 8
       \<and> list_all base36_digit (take 8 (drop 2 r))
       \<and> (10 \<le> length r \<longrightarrow> length (take 8 (drop 2 r)) = 8)
       \<and> (length r < 10 \<longrightarrow> length (take 8 (drop 2 r)) = length r - 2)"
proof -
  have "list_all base36_digit (drop 2 r)"
    using assms by (auto simp: base36_rendering_def)
  then have "list_all base36_digit (take 8 (drop 2 r))"
    by (auto simp: list_all_iff dest: in_set_takeD)
  then show ?thesis
    by (auto simp: uid_def slice_def)
qed

theorem uid_suffix_at_most_eight_witness:
  "base36_rendering ''0.4fzyo82mvyr''
   \<and> uid (Some ''experience'') ''0.4fzyo82mvyr'' = ''experience_4fzyo82m''
   \<and> base36_rendering ''0.i''
   \<and> uid None ''0.i'' = ''id_i''"
proof -
  have a: "base36_rendering ''0.4fzyo82mvyr''" and b: "base36_rendering ''0.i''"
    by (simp_all add: base36_rendering_def base36_digit_def)
  from uid_suffix_at_most_eight [OF a, of "Some ''experience''"]
       uid_suffix_at_most_eight [OF b, of None] a b
  show ?thesis by simp
qed

text \<open>
  C8 as stated fails when the rendering is short: one half is \<^verbatim>\<open>0.i\<close> in base 36, and
  the suffix is the single character \<^verbatim>\<open>i\<close>.
\<close>

theorem uid_short_suffix_counterexample:
  "base36_rendering ''0.i''
   \<and> uid (Some ''id'') ''0.i'' = ''id'' @ ''_'' @ ''i''
   \<and> length ''i'' < (8::nat)"
  by (simp add: base36_rendering_def base36_digit_def uid_def slice_def)

section \<open>Facts about loading\<close>

lemma get_prop_plain:
  "k \<noteq> proto_key \<Longrightarrow> array_index k = None \<Longrightarrow> k \<noteq> ''length'' \<Longrightarrow>
   get_prop x k = (case x of JNull \<Rightarrow> Inl TypeError | JObj m \<Rightarrow> Inr (fmlookup m k) | _ \<Rightarrow> Inr None)"
  by (cases x) auto

lemma array_index_names [simp]:
  "array_index ''id'' = None" "array_index ''sections'' = None" "array_index ''blocks'' = None"
  "array_index ''fields'' = None" "array_index ''meta'' = None" "array_index ''theme'' = None"
  "array_index ''type'' = None" "array_index ''colors'' = None" "array_index ''spacing'' = None"
  "array_index ''layout'' = None"
  by (simp_all add: array_index_def is_digit_def)

text \<open>
  C7, as the code has it. The stored value is returned exactly when the item exists, is
  not the empty text, parses, and the parsed value is an object whose \<^verbatim>\<open>id\<close> is truthy
  (present and none of \<^verbatim>\<open>null\<close>, \<^verbatim>\<open>false\<close>, \<^verbatim>\<open>0\<close>, \<^verbatim>\<open>""\<close>) and whose
  \<^verbatim>\<open>sections\<close> is an array; in every other case, a throwing \<^verbatim>\<open>getItem\<close> included, the
  sample is returned.
\<close>

theorem loadFromStorage_validates:
  "loadFromStorage rt got =
     (case got of
        Inr (Some stored) \<Rightarrow>
          (case JSON_parse rt stored of
             Some (JObj m) \<Rightarrow>
               if stored \<noteq> [] \<and> truthy (fmlookup m ''id'') \<and> isArray (fmlookup m ''sections'')
               then JObj m else JObj (sampleResume rt)
           | _ \<Rightarrow> JObj (sampleResume rt))
      | _ \<Rightarrow> JObj (sampleResume rt))"
  by (auto simp: loadFromStorage_def get_prop_plain proto_key_def isArray_def
      split: sum.splits option.splits json.splits)

text \<open>
  C7 as stated fails for a stored document whose \<^verbatim>\<open>id\<close> is the number 1: it is
  returned, not the sample, although its \<^verbatim>\<open>id\<close> is not a string.
\<close>

theorem loadFromStorage_number_id_counterexample:
  \<open>loadFromStorage example_runtime (Inr (Some ''{"id":1,"sections":[]}''))
     = JObj (fmupd ''id'' (JNum 1) (fmupd ''sections'' (JArr []) fmempty))
   \<and> \<not> is_string (fmlookup (fmupd ''id'' (JNum 1) (fmupd ''sections'' (JArr []) fmempty)) ''id'')
   \<and> loadFromStorage example_runtime (Inr (Some ''{"id":1,"sections":[]}''))
     \<noteq> JObj (sampleResume example_runtime)\<close>
proof -
  have l: \<open>loadFromStorage example_runtime (Inr (Some ''{"id":1,"sections":[]}''))
     = JObj (fmupd ''id'' (JNum 1) (fmupd ''sections'' (JArr []) fmempty))\<close>
    by (simp add: loadFromStorage_def example_runtime_def get_prop_plain proto_key_def isArray_def)
  have "fmlookup (fmupd ''id'' (JNum 1) (fmupd ''sections'' (JArr []) fmempty)) ''id''
          \<noteq> fmlookup (sampleResume example_runtime) ''id''"
    by (simp add: example_runtime_def)
  then have "fmupd ''id'' (JNum 1) (fmupd ''sections'' (JArr []) fmempty) \<noteq> sampleResume example_runtime"
    by metis
  with l show ?thesis by (simp add: is_string_def)
qed

section \<open>Facts about the commit point and the theme\<close>

lemma get_prop_obj: "k \<noteq> proto_key \<Longrightarrow> get_prop (JObj m) k = Inr (fmlookup m k)"
  by simp

lemma stamped_obj:
  "stamped now (JObj m) =
     Inr (JObj (fmupd ''meta'' (JObj (fmupd ''updatedAt'' (JNum now) (spread (fmlookup m ''meta'')))) m))"
  by (simp add: stamped_def proto_key_def)

lemma doc_saveToStorage [simp]: "doc (saveToStorage now d s) = doc s"
  by (simp add: saveToStorage_def)

lemma setDoc_Fn_logging:
  "f (doc s) = (msgs, Inr (JObj m)) \<Longrightarrow>
   setDoc now (Fn f) s =
     Inr (saveToStorage now
            (JObj (fmupd ''meta'' (JObj (fmupd ''updatedAt'' (JNum now) (spread (fmlookup m ''meta'')))) m))
            (s\<lparr>doc := JObj (fmupd ''meta'' (JObj (fmupd ''updatedAt'' (JNum now) (spread (fmlookup m ''meta'')))) m),
               console := console s @ msgs\<rparr>))"
  by (simp add: setDoc_def run_updater_def stamped_obj)

lemma setDoc_Fn:
  "f (doc s) = Inr (JObj m) \<Longrightarrow>
   setDoc now (Fn (silent f)) s =
     Inr (saveToStorage now
            (JObj (fmupd ''meta'' (JObj (fmupd ''updatedAt'' (JNum now) (spread (fmlookup m ''meta'')))) m))
            (s\<lparr>doc := JObj (fmupd ''meta'' (JObj (fmupd ''updatedAt'' (JNum now) (spread (fmlookup m ''meta'')))) m)\<rparr>))"
  by (simp add: setDoc_def run_updater_def silent_def stamped_obj)

lemma merged_group_record:
  "g \<noteq> proto_key \<Longrightarrow>
   merged_group (Some (JObj t)) (JObj p) g =
     Inr (JObj (fmadd (spread (fmlookup t g)) (spread (fmlookup p g))))"
  by (simp add: merged_group_def)

lemma setTheme_updater_record:
  assumes "fmlookup d ''theme'' = Some (JObj t)"
  shows "setTheme_updater (JObj p) (JObj d) =
     Inr (JObj (fmupd ''theme''
            (JObj (fmupd ''layout'' (JObj (fmadd (spread (fmlookup t ''layout'')) (spread (fmlookup p ''layout''))))
                    (fmupd ''spacing'' (JObj (fmadd (spread (fmlookup t ''spacing'')) (spread (fmlookup p ''spacing''))))
                      (fmupd ''colors'' (JObj (fmadd (spread (fmlookup t ''colors'')) (spread (fmlookup p ''colors''))))
                        (fmadd t p)))))
            d))"
  using assms by (simp add: setTheme_updater_def merged_group_record proto_key_def)

text \<open>
  C3. For a document whose theme is a record \<open>t\<close> and a patch \<open>p\<close>, \<^verbatim>\<open>setTheme\<close>
  commits a document whose theme is a record in which each of \<^verbatim>\<open>colors\<close>,
  \<^verbatim>\<open>spacing\<close> and \<^verbatim>\<open>layout\<close> is a record holding, key by key, the patch's value for
  the group where the patch's group has the key and the previous value where it has not,
  and in which every other key holds the patch's value when the patch has the key and
  the previous value otherwise; with colours \<^verbatim>\<open>{primary:"#000", accent:"#fff",
  muted:"#888"}\<close> and the patch \<^verbatim>\<open>{colors:{accent:"#111"}}\<close> the colours become
  \<^verbatim>\<open>{primary:"#000", accent:"#111", muted:"#888"}\<close>.
\<close>

theorem setTheme_merges_groups:
  assumes "doc s = JObj d" and "fmlookup d ''theme'' = Some (JObj t)"
  shows "\<exists>s'. setTheme now (JObj p) s = Inr s'
      \<and> is_record (own (Some (doc s')) ''theme'')
      \<and> (\<forall>g\<in>{''colors'', ''spacing'', ''layout''}.
            is_record (own (own (Some (doc s')) ''theme'') g)
          \<and> (\<forall>k. own (own (own (Some (doc s')) ''theme'') g) k =
                  (case own (fmlookup p g) k of
                     Some v \<Rightarrow> Some v
                   | None \<Rightarrow> own (fmlookup t g) k)))
      \<and> (\<forall>k. k \<notin> {''colors'', ''spacing'', ''layout''} \<longrightarrow>
            own (own (Some (doc s')) ''theme'') k =
              (case fmlookup p k of Some v \<Rightarrow> Some v | None \<Rightarrow> fmlookup t k))
      \<and> (fmlookup t ''colors'' = Some (JObj P4_colors) \<and> JObj p = P4_patch \<longrightarrow>
            own (own (Some (doc s')) ''theme'') ''colors'' = Some (JObj P4_result))"
proof -
  note upd = setTheme_updater_record [OF assms(2), of p]
  have p4: "fmupd ''accent'' (JStr ''#111'') P4_colors = P4_result"
    by (rule fmap_ext) (auto simp: P4_colors_def P4_result_def)
  show ?thesis
    unfolding setTheme_def
    apply (subst setDoc_Fn)
     apply (simp only: assms(1) upd)
    apply (rule exI, rule conjI, rule refl)
    apply (auto simp: own_def is_record_def P4_patch_def p4 split: option.splits)
    done
qed

text \<open>The theorem at the example store: the accent changes, the font family stays.\<close>

theorem setTheme_merges_groups_witness:
  "doc example_store = JObj (fmupd ''theme''
              (JObj (fmupd ''fontFamily'' (JStr ''Inter'') (fmupd ''colors'' (JObj P4_colors) fmempty)))
              fmempty)
   \<and> (\<exists>s'. setTheme 7 P4_patch example_store = Inr s'
         \<and> own (own (Some (doc s')) ''theme'') ''colors'' = Some (JObj P4_result)
         \<and> own (own (Some (doc s')) ''theme'') ''fontFamily'' = Some (JStr ''Inter''))"
proof -
  let ?t = "fmupd ''fontFamily'' (JStr ''Inter'') (fmupd ''colors'' (JObj P4_colors) fmempty)"
  let ?d = "fmupd ''theme'' (JObj ?t) fmempty"
  have d: "doc example_store = JObj ?d" by (simp add: example_store_def)
  have t: "fmlookup ?d ''theme'' = Some (JObj ?t)" by simp
  have p: "JObj (fmupd ''colors'' (JObj (fmupd ''accent'' (JStr ''#111'') fmempty)) fmempty) = P4_patch"
    by (simp add: P4_patch_def)
  from setTheme_merges_groups [OF d t, of 7 "fmupd ''colors'' (JObj (fmupd ''accent'' (JStr ''#111'') fmempty)) fmempty"]
  obtain s' where s': "setTheme 7 P4_patch example_store = Inr s'"
    and c: "own (own (Some (doc s')) ''theme'') ''colors'' = Some (JObj P4_result)"
    and o: "\<forall>k. k \<notin> {''colors'', ''spacing'', ''layout''} \<longrightarrow>
            own (own (Some (doc s')) ''theme'') k =
              (case fmlookup (fmupd ''colors'' (JObj (fmupd ''accent'' (JStr ''#111'') fmempty)) fmempty) k of
                 Some v \<Rightarrow> Some v | None \<Rightarrow> fmlookup ?t k)"
    unfolding p by auto
  from o have "own (own (Some (doc s')) ''theme'') ''fontFamily'' = Some (JStr ''Inter'')"
    by simp
  with d s' c show ?thesis by blast
qed

section \<open>Facts about reordering\<close>

lemma is_Section_obj: "is_Section x \<Longrightarrow> \<exists>m. x = JObj m"
  by (cases x) auto

lemma get_prop_id_Section: "is_Section x \<Longrightarrow> get_prop x ''id'' = Inr (id_of x)"
  by (cases x) (auto simp: proto_key_def id_of_def)

lemma section_entries_sections:
  "list_all is_Section ss \<Longrightarrow> section_entries ss = Inr (map (\<lambda>x. (id_of x, x)) ss)"
  by (induction ss) (auto simp: get_prop_id_Section)

lemma map_of_keyed: "map_of (map (\<lambda>x. (key x, x)) xs) k = find (\<lambda>x. key x = k) xs"
  by (induction xs) auto

lemma Map_get_sections:
  "Map_get (map (\<lambda>x. (id_of x, x)) ss) (Some (JStr i)) = find (has_id i) (rev ss)"
  by (simp add: Map_get_def rev_map map_of_keyed has_id_def [abs_def])

lemma find_in_set: "find P xs = Some x \<Longrightarrow> x \<in> set xs \<and> P x"
  by (induction xs) (auto split: if_splits)

lemma truthy_found:
  assumes "list_all is_Section ss"
  shows "truthy (find P (rev ss)) \<longleftrightarrow> find P (rev ss) \<noteq> None"
proof (cases "find P (rev ss)")
  case None
  then show ?thesis by simp
next
  case (Some x)
  then have "x \<in> set ss" using find_in_set by fastforce
  with assms have "is_Section x" by (simp add: list_all_iff)
  then obtain m where "x = JObj m" using is_Section_obj by blast
  with Some show ?thesis by simp
qed

lemma filter_truthy_map_filter:
  assumes "\<And>i. truthy (g i) \<longleftrightarrow> g i \<noteq> None"
  shows "map the (filter truthy (map g ids)) = List.map_filter g ids"
  using assms by (induction ids) (auto simp: List.map_filter_simps split: option.splits)

lemma array_prop_obj:
  "k \<noteq> proto_key \<Longrightarrow> fmlookup d k = Some (JArr xs) \<Longrightarrow> array_prop (JObj d) k = Inr xs"
  by (simp add: array_prop_def)

lemma reorderSections_updater_doc:
  assumes "fmlookup d ''sections'' = Some (JArr ss)" and "list_all is_Section ss"
  shows "reorderSections_updater ids (JObj d) =
           Inr (JObj (fmupd ''sections''
                  (JArr (List.map_filter (\<lambda>i. find (has_id i) (rev ss)) ids)) d))"
proof -
  have "map the (filter truthy (map (\<lambda>i. find (has_id i) (rev ss)) ids))
          = List.map_filter (\<lambda>i. find (has_id i) (rev ss)) ids"
    by (rule filter_truthy_map_filter) (rule truthy_found [OF assms(2)])
  then show ?thesis
    using assms
    by (simp add: reorderSections_updater_def deep_clone_def array_prop_obj proto_key_def
        section_entries_sections Map_get_sections with_own_def)
qed

lemma is_ResumeDoc_sections:
  "is_ResumeDoc d \<Longrightarrow>
   \<exists>m. d = JObj m \<and> fmlookup m ''sections'' = Some (JArr (sections_of d))
        \<and> list_all is_Section (sections_of d)"
  by (cases d) (auto simp: sections_of_def split: option.splits json.splits)

lemma sections_of_stamped:
  "sections_of (JObj (fmupd ''meta'' v m)) = sections_of (JObj m)"
  by (simp add: sections_of_def)

lemma has_id_inj: "has_id i x \<Longrightarrow> has_id j x \<Longrightarrow> i = j"
  by (simp add: has_id_def)

lemma find_has_id: "find (has_id i) xs = Some y \<Longrightarrow> y \<in> set xs \<and> has_id i y"
  by (rule find_in_set)

lemma find_None_iff_no: "find P xs = None \<longleftrightarrow> (\<forall>x\<in>set xs. \<not> P x)"
  by (induction xs) auto

lemma set_map_filter: "set (List.map_filter g xs) = {y. \<exists>x\<in>set xs. g x = Some y}"
  by (induction xs) (auto simp: List.map_filter_simps split: option.splits)

lemma reorderSections_commit:
  assumes "is_ResumeDoc (doc s)"
  shows "\<exists>s'. reorderSections now ids s = Inr s'
       \<and> sections_of (doc s') =
           List.map_filter (\<lambda>i. find (has_id i) (rev (sections_of (doc s)))) ids"
proof -
  from is_ResumeDoc_sections [OF assms] obtain m where
    m: "doc s = JObj m" "fmlookup m ''sections'' = Some (JArr (sections_of (doc s)))"
       "list_all is_Section (sections_of (doc s))" by blast
  show ?thesis
    unfolding reorderSections_def
    apply (subst setDoc_Fn)
     apply (simp only: m(1))
     apply (rule reorderSections_updater_doc [OF m(2) m(3)])
    apply (simp add: sections_of_stamped)
    apply (simp add: sections_of_def)
    done
qed

text \<open>
  C4. For a document \<open>doc s\<close>, \<^verbatim>\<open>reorderSections(ids)\<close> commits a document whose
  sections are the ids mapped, in order, through the lookup from an id to the (last)
  current section with that id, an id without a section giving nothing; so every section
  of the result is a current section whose id is listed, a current section whose id is not
  listed is absent, and with sections of distinct ids \<open>i1, i2, i3\<close> the order
  \<open>[i3, i1]\<close> gives the third section followed by the first.
\<close>

theorem reorderSections_maps_ids:
  assumes "is_ResumeDoc (doc s)"
  shows "\<exists>s'. reorderSections now ids s = Inr s'
     \<and> sections_of (doc s') =
         List.map_filter (\<lambda>i. find (has_id i) (rev (sections_of (doc s)))) ids
     \<and> (\<forall>x\<in>set (sections_of (doc s')).
           x \<in> set (sections_of (doc s)) \<and> (\<exists>i\<in>set ids. has_id i x))
     \<and> (\<forall>x\<in>set (sections_of (doc s)).
           (\<forall>i\<in>set ids. \<not> has_id i x) \<longrightarrow> x \<notin> set (sections_of (doc s')))
     \<and> (\<forall>a b c i1 i2 i3.
           sections_of (doc s) = [a, b, c] \<and> has_id i1 a \<and> has_id i2 b \<and> has_id i3 c
           \<and> distinct [i1, i2, i3] \<and> ids = [i3, i1]
           \<longrightarrow> sections_of (doc s') = [c, a])"
proof -
  let ?ss = "sections_of (doc s)"
  let ?g = "\<lambda>i. find (has_id i) (rev ?ss)"
  from reorderSections_commit [OF assms, of now ids] obtain s' where
    s': "reorderSections now ids s = Inr s'" and
    eq: "sections_of (doc s') = List.map_filter ?g ids" by blast
  have mem: "\<forall>x\<in>set (sections_of (doc s')). x \<in> set ?ss \<and> (\<exists>i\<in>set ids. has_id i x)"
    unfolding eq set_map_filter using find_has_id by fastforce
  have dropped: "\<forall>x\<in>set ?ss. (\<forall>i\<in>set ids. \<not> has_id i x) \<longrightarrow> x \<notin> set (sections_of (doc s'))"
    using mem by blast
  have p5: "\<forall>a b c i1 i2 i3.
           ?ss = [a, b, c] \<and> has_id i1 a \<and> has_id i2 b \<and> has_id i3 c
           \<and> distinct [i1, i2, i3] \<and> ids = [i3, i1]
           \<longrightarrow> sections_of (doc s') = [c, a]"
  proof (intro allI impI)
    fix a b c i1 i2 i3
    assume h: "?ss = [a, b, c] \<and> has_id i1 a \<and> has_id i2 b \<and> has_id i3 c
           \<and> distinct [i1, i2, i3] \<and> ids = [i3, i1]"
    then have "\<not> has_id i1 c" "\<not> has_id i1 b" using has_id_inj by fastforce+
    with h show "sections_of (doc s') = [c, a]"
      unfolding eq by (simp add: List.map_filter_simps)
  qed
  from s' eq mem dropped p5 show ?thesis by blast
qed

lemma count_map_filter_id:
  assumes "\<And>j y. g j = Some y \<Longrightarrow> has_id j y" and "g i \<noteq> None"
  shows "length (filter (has_id i) (List.map_filter g ids)) = count_list ids i"
proof (induction ids)
  case Nil
  then show ?case by (simp add: List.map_filter_simps)
next
  case (Cons j ids)
  show ?case
  proof (cases "g j")
    case None
    with assms(2) have "j \<noteq> i" by auto
    with None Cons show ?thesis by (simp add: List.map_filter_simps)
  next
    case (Some y)
    with assms(1) have "has_id j y" by blast
    then have "has_id i y \<longleftrightarrow> j = i" using has_id_inj assms by (auto simp: has_id_def)
    with Some Cons show ?thesis by (simp add: List.map_filter_simps)
  qed
qed

lemma distinct_filter_le_1: "distinct xs \<Longrightarrow> length (filter (\<lambda>v. v = a) xs) \<le> 1"
  by (induction xs) (auto simp: filter_empty_conv)

text \<open>
  C10. When \<open>i\<close> is the id of a current section, the committed sections hold as many
  sections with id \<open>i\<close> as \<open>i\<close> occurs in the new order, and with two or more
  occurrences the ids of the committed sections are not distinct.
\<close>

theorem reorderSections_repeats_sections:
  assumes "is_ResumeDoc (doc s)" and "x \<in> set (sections_of (doc s))" and "has_id i x"
  shows "\<exists>s'. reorderSections now ids s = Inr s'
     \<and> length (filter (has_id i) (sections_of (doc s'))) = count_list ids i
     \<and> (2 \<le> count_list ids i \<longrightarrow> \<not> distinct (map id_of (sections_of (doc s'))))"
proof -
  let ?ss = "sections_of (doc s)"
  let ?g = "\<lambda>i. find (has_id i) (rev ?ss)"
  from reorderSections_commit [OF assms(1), of now ids] obtain s' where
    s': "reorderSections now ids s = Inr s'" and
    eq: "sections_of (doc s') = List.map_filter ?g ids" by blast
  have "?g i \<noteq> None" using assms(2,3) by (auto simp: find_None_iff_no)
  then have n: "length (filter (has_id i) (sections_of (doc s'))) = count_list ids i"
    unfolding eq using count_map_filter_id [of ?g i ids] find_has_id by blast
  have "length (filter (\<lambda>v. v = Some (JStr i)) (map id_of (sections_of (doc s'))))
          = length (filter (has_id i) (sections_of (doc s')))"
    by (simp add: filter_map comp_def has_id_def [abs_def])
  with n have "2 \<le> count_list ids i \<longrightarrow> \<not> distinct (map id_of (sections_of (doc s')))"
    using distinct_filter_le_1 [of "map id_of (sections_of (doc s'))" "Some (JStr i)"] by auto
  with s' n show ?thesis by blast
qed

lemma example_doc_ok: "is_ResumeDoc (doc (store_of example_doc))"
  by (simp add: store_of_def example_doc_def example_doc_at_def example_section_def
      example_block_def is_string_def is_number_def is_record_def)

lemma example_sections:
  "sections_of (doc (store_of example_doc)) =
     [example_section ''s1'' [example_block ''b1''], example_section ''s2'' [], example_section ''s3'' []]"
  by (simp add: store_of_def example_doc_def example_doc_at_def sections_of_def)

lemma example_has_id: "has_id i (example_section j bs) \<longleftrightarrow> i = j"
  by (auto simp: has_id_def id_of_def example_section_def)

text \<open>The two reordering theorems at the example document.\<close>

theorem reorderSections_maps_ids_witness:
  "is_ResumeDoc (doc (store_of example_doc))
   \<and> (\<exists>s'. reorderSections 9 [''s3'', ''s1''] (store_of example_doc) = Inr s'
          \<and> sections_of (doc s') = [example_section ''s3'' [], example_section ''s1'' [example_block ''b1'']])"
proof -
  from reorderSections_maps_ids [OF example_doc_ok, of 9 "[''s3'', ''s1'']"]
  obtain s' where s': "reorderSections 9 [''s3'', ''s1''] (store_of example_doc) = Inr s'"
    and p5: "\<forall>a b c i1 i2 i3.
           sections_of (doc (store_of example_doc)) = [a, b, c] \<and> has_id i1 a \<and> has_id i2 b \<and> has_id i3 c
           \<and> distinct [i1, i2, i3] \<and> [''s3'', ''s1''] = [i3, i1]
           \<longrightarrow> sections_of (doc s') = [c, a]"
    by blast
  from p5 have "sections_of (doc s') = [example_section ''s3'' [], example_section ''s1'' [example_block ''b1'']]"
    by (simp add: example_sections example_has_id)
  with s' example_doc_ok show ?thesis by blast
qed

theorem reorderSections_repeats_sections_witness:
  "is_ResumeDoc (doc (store_of example_doc))
   \<and> example_section ''s2'' [] \<in> set (sections_of (doc (store_of example_doc)))
   \<and> has_id ''s2'' (example_section ''s2'' [])
   \<and> (\<exists>s'. reorderSections 9 [''s2'', ''s1'', ''s2''] (store_of example_doc) = Inr s'
          \<and> length (filter (has_id ''s2'') (sections_of (doc s'))) = 2
          \<and> \<not> distinct (map id_of (sections_of (doc s'))))"
proof -
  have a: "example_section ''s2'' [] \<in> set (sections_of (doc (store_of example_doc)))"
    by (simp add: example_sections)
  have b: "has_id ''s2'' (example_section ''s2'' [])" by (simp add: example_has_id)
  from reorderSections_repeats_sections [OF example_doc_ok a b, of 9 "[''s2'', ''s1'', ''s2'']"]
  obtain s' where "reorderSections 9 [''s2'', ''s1'', ''s2''] (store_of example_doc) = Inr s'"
    and "length (filter (has_id ''s2'') (sections_of (doc s'))) = 2"
    and "\<not> distinct (map id_of (sections_of (doc s')))"
    by auto
  with example_doc_ok a b show ?thesis by blast
qed

section \<open>Facts about lookups that miss\<close>

lemma get_prop_id_record: "is_record (Some x) \<Longrightarrow> get_prop x ''id'' = Inr (id_of x)"
  by (cases x) (auto simp: proto_key_def id_of_def is_record_def)

lemma find_by_id_records:
  assumes "list_all (\<lambda>x. is_record (Some x)) xs"
  shows "find_by_id xs i =
           Inr (if \<exists>x\<in>set xs. has_id i x then Some (length (takeWhile (\<lambda>x. \<not> has_id i x) xs)) else None)"
  using assms by (induction xs) (auto simp: get_prop_id_record has_id_def)

lemma filter_out_id_records:
  assumes "list_all (\<lambda>x. is_record (Some x)) xs"
  shows "filter_out_id xs i = Inr (filter (\<lambda>x. \<not> has_id i x) xs)"
  using assms by (induction xs) (auto simp: get_prop_id_record has_id_def)

lemma is_Section_record: "is_Section x \<Longrightarrow> is_record (Some x)"
  by (cases x) (auto simp: is_record_def)

lemma is_Block_record: "is_Block x \<Longrightarrow> is_record (Some x)"
  by (cases x) (auto simp: is_record_def)

lemma list_all_mono': "list_all P xs \<Longrightarrow> (\<And>x. P x \<Longrightarrow> Q x) \<Longrightarrow> list_all Q xs"
  by (induction xs) auto

lemma is_Section_blocks:
  "is_Section x \<Longrightarrow>
   \<exists>m. x = JObj m \<and> fmlookup m ''blocks'' = Some (JArr (blocks_of x)) \<and> list_all is_Block (blocks_of x)"
  by (cases x) (auto simp: blocks_of_def split: option.splits json.splits)

lemma fmupd_same: "fmlookup m k = Some v \<Longrightarrow> fmupd k v m = m"
  by (rule fmap_ext) auto

lemma takeWhile_first:
  assumes "n < length xs" and "P (xs ! n)" and "\<forall>j<n. \<not> P (xs ! j)"
  shows "length (takeWhile (\<lambda>x. \<not> P x) xs) = n"
proof -
  have "takeWhile (\<lambda>x. \<not> P x) xs = take n xs"
    using assms by (intro takeWhile_eq_take_P_nth) auto
  with assms(1) show ?thesis by simp
qed

lemma find_takeWhile:
  "find P xs = Some x \<Longrightarrow>
   length (takeWhile (\<lambda>x. \<not> P x) xs) < length xs \<and> xs ! length (takeWhile (\<lambda>x. \<not> P x) xs) = x"
  by (induction xs) (auto split: if_splits)

lemma find_by_id_sections_none:
  assumes "list_all is_Section ss" and "\<forall>x\<in>set ss. \<not> has_id i x"
  shows "find_by_id ss i = Inr None"
  using find_by_id_records [OF list_all_mono' [OF assms(1) is_Section_record], of i] assms(2)
  by simp

lemma find_by_id_sections_some:
  assumes "list_all is_Section ss" and "find (has_id i) ss = Some x"
  shows "find_by_id ss i = Inr (Some (length (takeWhile (\<lambda>x. \<not> has_id i x) ss)))"
  using find_by_id_records [OF list_all_mono' [OF assms(1) is_Section_record], of i]
    find_in_set [OF assms(2)] by auto

lemma find_by_id_blocks_none:
  assumes "list_all is_Block bs" and "\<forall>x\<in>set bs. \<not> has_id i x"
  shows "find_by_id bs i = Inr None"
  using find_by_id_records [OF list_all_mono' [OF assms(1) is_Block_record], of i] assms(2)
  by simp

lemma filter_out_id_blocks_none:
  assumes "list_all is_Block bs" and "\<forall>x\<in>set bs. \<not> has_id i x"
  shows "filter_out_id bs i = Inr bs"
  using filter_out_id_records [OF list_all_mono' [OF assms(1) is_Block_record], of i] assms(2)
  by (simp add: filter_id_conv)

lemma with_section_same:
  assumes "fmlookup m ''sections'' = Some (JArr ss)"
  shows "with_section (JObj m) n (ss ! n) = JObj m"
  using assms by (simp add: with_section_def fmupd_same)

lemma with_own_same:
  "fmlookup m k = Some v \<Longrightarrow> with_own (JObj m) k v = JObj m"
  by (simp add: with_own_def fmupd_same)

lemma miss_section:
  assumes "fmlookup m ''sections'' = Some (JArr ss)" and "list_all is_Section ss"
    and "\<forall>x\<in>set ss. \<not> has_id sectionId x"
  shows "updateField_updater sectionId blockId path v (JObj m)
           = ([''Section '' @ sectionId @ '' not found''], Inr (JObj m))"
    and "addBlock_updater rt r sectionId blockTemplate (JObj m)
           = ([''Section '' @ sectionId @ '' not found''], Inr (JObj m))"
    and "removeBlock_updater sectionId blockId (JObj m)
           = ([''Section '' @ sectionId @ '' not found''], Inr (JObj m))"
  using assms
  by (simp_all add: updateField_updater_def addBlock_updater_def removeBlock_updater_def
      deep_clone_def array_prop_obj proto_key_def find_by_id_sections_none)

lemma miss_block:
  assumes "fmlookup m ''sections'' = Some (JArr ss)" and "list_all is_Section ss"
    and "find (has_id sectionId) ss = Some x" and "\<forall>b\<in>set (blocks_of x). \<not> has_id blockId b"
  shows "updateField_updater sectionId blockId path v (JObj m)
           = ([''Block '' @ blockId @ '' not found in section '' @ sectionId], Inr (JObj m))"
    and "removeBlock_updater sectionId blockId (JObj m) = ([], Inr (JObj m))"
proof -
  let ?n = "length (takeWhile (\<lambda>x. \<not> has_id sectionId x) ss)"
  from find_takeWhile [OF assms(3)] have n: "?n < length ss" "ss ! ?n = x" by auto
  from find_in_set [OF assms(3)] assms(2) have "is_Section x" by (simp add: list_all_iff)
  from is_Section_blocks [OF this] obtain xm where
    x: "x = JObj xm" "fmlookup xm ''blocks'' = Some (JArr (blocks_of x))"
       "list_all is_Block (blocks_of x)" by blast
  have ap: "array_prop (ss ! ?n) ''blocks'' = Inr (blocks_of x)"
    using n(2) x by (simp add: array_prop_obj proto_key_def)
  show "updateField_updater sectionId blockId path v (JObj m)
           = ([''Block '' @ blockId @ '' not found in section '' @ sectionId], Inr (JObj m))"
    using assms(1)
    by (simp add: updateField_updater_def deep_clone_def array_prop_obj proto_key_def
        find_by_id_sections_some [OF assms(2,3)] ap find_by_id_blocks_none [OF x(3) assms(4)])
  have "with_own (ss ! ?n) ''blocks'' (JArr (blocks_of x)) = ss ! ?n"
    using n(2) x(1,2) with_own_same by simp
  then show "removeBlock_updater sectionId blockId (JObj m) = ([], Inr (JObj m))"
    using assms(1)
    by (simp add: removeBlock_updater_def deep_clone_def array_prop_obj proto_key_def
        find_by_id_sections_some [OF assms(2,3)] ap filter_out_id_blocks_none [OF x(3) assms(4)]
        with_section_same)
qed

lemma console_saveToStorage [simp]: "console (saveToStorage now d s) = console s"
  by (simp add: saveToStorage_def clearTimeout_def split: option.splits)

text \<open>
  C1, as the code has it. For a document \<open>doc s\<close> of the typedef's shape, an
  \<^verbatim>\<open>updateField\<close>, \<^verbatim>\<open>addBlock\<close> or \<^verbatim>\<open>removeBlock\<close> call whose section id no
  section has, and an \<^verbatim>\<open>updateField\<close> or \<^verbatim>\<open>removeBlock\<close> call whose block id no
  block of the section found has, returns (nothing is thrown) and commits \<open>D'\<close>: the
  document with \<^verbatim>\<open>meta.updatedAt\<close> set to the time of the call, equal to \<open>doc s\<close> at
  every other key of the document and of its \<^verbatim>\<open>meta\<close>; the commit schedules a save of
  \<open>D'\<close>. A missing section adds the one warning \<^verbatim>\<open>Section <id> not found\<close> to the
  console, in each of the three calls; a missing block adds the one warning
  \<^verbatim>\<open>Block <id> not found in section <id>\<close> in \<^verbatim>\<open>updateField\<close>, and nothing in
  \<^verbatim>\<open>removeBlock\<close>, whose console stays as it was.
\<close>

theorem lookup_miss_only_restamps:
  assumes "is_ResumeDoc (doc s)"
  shows "\<exists>D'. stamped now (doc s) = Inr D'
     \<and> (\<forall>k. k \<noteq> ''meta'' \<longrightarrow> own (Some D') k = own (Some (doc s)) k)
     \<and> (\<forall>k. k \<noteq> ''updatedAt'' \<longrightarrow>
            own (own (Some D') ''meta'') k = own (own (Some (doc s)) ''meta'') k)
     \<and> own (own (Some D') ''meta'') ''updatedAt'' = Some (JNum now)
     \<and> ((\<forall>x\<in>set (sections_of (doc s)). \<not> has_id sectionId x) \<longrightarrow>
            updateField now sectionId blockId path v s
              = Inr (saveToStorage now D'
                       (s\<lparr>doc := D', console := console s @ [''Section '' @ sectionId @ '' not found'']\<rparr>))
          \<and> addBlock rt now r sectionId blockTemplate s
              = Inr (saveToStorage now D'
                       (s\<lparr>doc := D', console := console s @ [''Section '' @ sectionId @ '' not found'']\<rparr>))
          \<and> removeBlock now sectionId blockId s
              = Inr (saveToStorage now D'
                       (s\<lparr>doc := D', console := console s @ [''Section '' @ sectionId @ '' not found'']\<rparr>)))
     \<and> (\<forall>x. find (has_id sectionId) (sections_of (doc s)) = Some x
              \<and> (\<forall>b\<in>set (blocks_of x). \<not> has_id blockId b) \<longrightarrow>
            updateField now sectionId blockId path v s
              = Inr (saveToStorage now D'
                       (s\<lparr>doc := D',
                          console := console s @ [''Block '' @ blockId @ '' not found in section '' @ sectionId]\<rparr>))
          \<and> removeBlock now sectionId blockId s = Inr (saveToStorage now D' (s\<lparr>doc := D'\<rparr>))
          \<and> console (saveToStorage now D' (s\<lparr>doc := D'\<rparr>)) = console s)"
proof -
  from is_ResumeDoc_sections [OF assms] obtain m where
    m: "doc s = JObj m" "fmlookup m ''sections'' = Some (JArr (sections_of (doc s)))"
       "list_all is_Section (sections_of (doc s))" by blast
  let ?D = "JObj (fmupd ''meta'' (JObj (fmupd ''updatedAt'' (JNum now) (spread (fmlookup m ''meta'')))) m)"
  have st: "stamped now (doc s) = Inr ?D" by (simp add: m(1) stamped_obj)
  have commit: "f (doc s) = (msgs, Inr (doc s)) \<Longrightarrow>
      setDoc now (Fn f) s = Inr (saveToStorage now ?D (s\<lparr>doc := ?D, console := console s @ msgs\<rparr>))"
    for f msgs
    by (simp add: setDoc_def run_updater_def st)
  have quiet: "f (doc s) = ([], Inr (doc s)) \<Longrightarrow>
      setDoc now (Fn f) s = Inr (saveToStorage now ?D (s\<lparr>doc := ?D\<rparr>))" for f
    by (simp add: setDoc_def run_updater_def st)
  have frame1: "\<forall>k. k \<noteq> ''meta'' \<longrightarrow> own (Some ?D) k = own (Some (doc s)) k"
    by (simp add: own_def m(1))
  have frame2: "\<forall>k. k \<noteq> ''updatedAt'' \<longrightarrow>
            own (own (Some ?D) ''meta'') k = own (own (Some (doc s)) ''meta'') k"
    by (simp add: own_def m(1))
  have upd: "own (own (Some ?D) ''meta'') ''updatedAt'' = Some (JNum now)"
    by (simp add: own_def)
  have sec: "(\<forall>x\<in>set (sections_of (doc s)). \<not> has_id sectionId x) \<longrightarrow>
            updateField now sectionId blockId path v s
              = Inr (saveToStorage now ?D
                       (s\<lparr>doc := ?D, console := console s @ [''Section '' @ sectionId @ '' not found'']\<rparr>))
          \<and> addBlock rt now r sectionId blockTemplate s
              = Inr (saveToStorage now ?D
                       (s\<lparr>doc := ?D, console := console s @ [''Section '' @ sectionId @ '' not found'']\<rparr>))
          \<and> removeBlock now sectionId blockId s
              = Inr (saveToStorage now ?D
                       (s\<lparr>doc := ?D, console := console s @ [''Section '' @ sectionId @ '' not found'']\<rparr>))"
    unfolding updateField_def addBlock_def removeBlock_def
    using miss_section [OF m(2) m(3)] commit by (simp add: m(1))
  have blk: "\<forall>x. find (has_id sectionId) (sections_of (doc s)) = Some x
              \<and> (\<forall>b\<in>set (blocks_of x). \<not> has_id blockId b) \<longrightarrow>
            updateField now sectionId blockId path v s
              = Inr (saveToStorage now ?D
                       (s\<lparr>doc := ?D,
                          console := console s @ [''Block '' @ blockId @ '' not found in section '' @ sectionId]\<rparr>))
          \<and> removeBlock now sectionId blockId s = Inr (saveToStorage now ?D (s\<lparr>doc := ?D\<rparr>))
          \<and> console (saveToStorage now ?D (s\<lparr>doc := ?D\<rparr>)) = console s"
    unfolding updateField_def removeBlock_def
    using miss_block [OF m(2) m(3)] commit quiet by (simp add: m(1))
  from st frame1 frame2 upd sec blk show ?thesis by blast
qed

lemma example_block_has_id: "has_id i (example_block j) \<longleftrightarrow> i = j"
  by (auto simp: has_id_def id_of_def example_block_def)

lemma example_blocks_of: "blocks_of (example_section j bs) = bs"
  by (simp add: blocks_of_def example_section_def)

lemma stamped_example: "stamped now (example_doc_at u) = Inr (example_doc_at now)"
proof -
  have meta: "fmupd ''updatedAt'' (JNum now)
                (fmupd ''title'' (JStr ''Resume'') (fmupd ''createdAt'' (JNum 0) (fmupd ''updatedAt'' (JNum u) fmempty)))
            = fmupd ''title'' (JStr ''Resume'') (fmupd ''createdAt'' (JNum 0) (fmupd ''updatedAt'' (JNum now) fmempty))"
    by (rule fmap_ext) auto
  show ?thesis
    unfolding example_doc_at_def stamped_obj
    apply (simp add: meta)
    apply (rule fmap_ext)
    apply auto
    done
qed

lemma example_doc_at_neq: "example_doc_at 1 \<noteq> example_doc_at 0"
proof
  assume "example_doc_at 1 = example_doc_at 0"
  then have "own (own (Some (example_doc_at 1)) ''meta'') ''updatedAt''
           = own (own (Some (example_doc_at 0)) ''meta'') ''updatedAt''" by simp
  then show False by (simp add: own_def example_doc_at_def)
qed

text \<open>
  The theorem at the example document: no section \<^verbatim>\<open>nope\<close>, which is logged, and no
  block \<^verbatim>\<open>zz\<close> in section \<^verbatim>\<open>s1\<close>, which \<^verbatim>\<open>updateField\<close> logs and \<^verbatim>\<open>removeBlock\<close>
  does not.
\<close>

theorem lookup_miss_only_restamps_witness:
  "is_ResumeDoc (doc (store_of example_doc))
   \<and> find (has_id ''nope'') (sections_of (doc (store_of example_doc))) = None
   \<and> addBlock example_runtime 5 ''0.5'' ''nope'' (example_block ''b9'') (store_of example_doc)
       = Inr (saveToStorage 5 (example_doc_at 5)
                ((store_of (example_doc_at 5))\<lparr>console := [''Section nope not found'']\<rparr>))
   \<and> find (has_id ''s1'') (sections_of (doc (store_of example_doc)))
       = Some (example_section ''s1'' [example_block ''b1''])
   \<and> find (has_id ''zz'') (blocks_of (example_section ''s1'' [example_block ''b1''])) = None
   \<and> updateField 5 ''s1'' ''zz'' ''role'' (JStr ''x'') (store_of example_doc)
       = Inr (saveToStorage 5 (example_doc_at 5)
                ((store_of (example_doc_at 5))\<lparr>console := [''Block zz not found in section s1'']\<rparr>))
   \<and> removeBlock 5 ''s1'' ''zz'' (store_of example_doc)
       = Inr (saveToStorage 5 (example_doc_at 5) (store_of (example_doc_at 5)))"
proof -
  let ?s = "store_of example_doc"
  have st: "stamped 5 (doc ?s) = Inr (example_doc_at 5)"
    by (simp add: store_of_def example_doc_def stamped_example)
  have upd: "?s\<lparr>doc := example_doc_at 5\<rparr> = store_of (example_doc_at 5)"
    by (simp add: store_of_def)
  have updc: "?s\<lparr>doc := example_doc_at 5, console := console ?s @ msgs\<rparr>
            = (store_of (example_doc_at 5))\<lparr>console := msgs\<rparr>" for msgs
    by (simp add: store_of_def)
  have none: "\<forall>x\<in>set (sections_of (doc ?s)). \<not> has_id ''nope'' x"
    by (simp add: example_sections example_has_id)
  have f1: "find (has_id ''nope'') (sections_of (doc ?s)) = None"
    by (simp add: example_sections example_has_id)
  have f2: "find (has_id ''s1'') (sections_of (doc ?s)) = Some (example_section ''s1'' [example_block ''b1''])"
    by (simp add: example_sections example_has_id)
  have nb: "\<forall>b\<in>set (blocks_of (example_section ''s1'' [example_block ''b1''])). \<not> has_id ''zz'' b"
    by (simp add: example_blocks_of example_block_has_id)
  have f3: "find (has_id ''zz'') (blocks_of (example_section ''s1'' [example_block ''b1''])) = None"
    by (simp add: example_blocks_of example_block_has_id)
  from lookup_miss_only_restamps [OF example_doc_ok, of 5 "''nope''" _ _ _ example_runtime "''0.5''" "example_block ''b9''"]
  have a: "addBlock example_runtime 5 ''0.5'' ''nope'' (example_block ''b9'') ?s
       = Inr (saveToStorage 5 (example_doc_at 5)
                ((store_of (example_doc_at 5))\<lparr>console := [''Section nope not found'']\<rparr>))"
    using st none updc [of "[''Section nope not found'']"] by auto
  from lookup_miss_only_restamps [OF example_doc_ok, of 5 "''s1''" "''zz''" "''role''" "JStr ''x''"]
  have b: "updateField 5 ''s1'' ''zz'' ''role'' (JStr ''x'') ?s
       = Inr (saveToStorage 5 (example_doc_at 5)
                ((store_of (example_doc_at 5))\<lparr>console := [''Block zz not found in section s1'']\<rparr>))
     \<and> removeBlock 5 ''s1'' ''zz'' ?s
       = Inr (saveToStorage 5 (example_doc_at 5) (store_of (example_doc_at 5)))"
    using st f2 nb upd updc [of "[''Block zz not found in section s1'']"] by auto
  from example_doc_ok f1 a f2 f3 b show ?thesis by blast
qed

text \<open>
  C1 as stated fails twice. After a call at time 1 that finds no section, the
  committed document has \<^verbatim>\<open>meta.updatedAt = 1\<close> and differs from the document
  before, whose \<^verbatim>\<open>meta.updatedAt\<close> is 0; that miss is logged. And a
  \<^verbatim>\<open>removeBlock\<close> whose block id no block of the section found has is not logged:
  the console is empty after it.
\<close>

theorem lookup_miss_restamps_counterexample:
  "is_ResumeDoc example_doc
   \<and> find (has_id ''nope'') (sections_of example_doc) = None
   \<and> updateField 1 ''nope'' ''b1'' ''role'' (JStr ''x'') (store_of example_doc)
       = Inr (saveToStorage 1 (example_doc_at 1)
                ((store_of (example_doc_at 1))\<lparr>console := [''Section nope not found'']\<rparr>))
   \<and> doc (saveToStorage 1 (example_doc_at 1)
            ((store_of (example_doc_at 1))\<lparr>console := [''Section nope not found'']\<rparr>)) = example_doc_at 1
   \<and> example_doc_at 1 \<noteq> example_doc
   \<and> find (has_id ''s1'') (sections_of example_doc) = Some (example_section ''s1'' [example_block ''b1''])
   \<and> find (has_id ''zz'') (blocks_of (example_section ''s1'' [example_block ''b1''])) = None
   \<and> removeBlock 1 ''s1'' ''zz'' (store_of example_doc)
       = Inr (saveToStorage 1 (example_doc_at 1) (store_of (example_doc_at 1)))
   \<and> console (saveToStorage 1 (example_doc_at 1) (store_of (example_doc_at 1))) = []"
proof -
  have ok: "is_ResumeDoc example_doc" using example_doc_ok by (simp add: store_of_def)
  have ss: "sections_of example_doc =
     [example_section ''s1'' [example_block ''b1''], example_section ''s2'' [], example_section ''s3'' []]"
    using example_sections by (simp add: store_of_def)
  have f: "find (has_id ''nope'') (sections_of example_doc) = None"
    by (simp add: ss example_has_id)
  have f2: "find (has_id ''s1'') (sections_of example_doc) = Some (example_section ''s1'' [example_block ''b1''])"
    by (simp add: ss example_has_id)
  have f3: "find (has_id ''zz'') (blocks_of (example_section ''s1'' [example_block ''b1''])) = None"
    by (simp add: example_blocks_of example_block_has_id)
  from is_ResumeDoc_sections [OF ok] obtain m where
    m: "example_doc = JObj m" "fmlookup m ''sections'' = Some (JArr (sections_of example_doc))"
       "list_all is_Section (sections_of example_doc)" by blast
  have "\<forall>x\<in>set (sections_of example_doc). \<not> has_id ''nope'' x"
    by (simp add: ss example_has_id)
  from miss_section(1) [OF m(2) m(3) this]
  have u: "updateField_updater ''nope'' ''b1'' ''role'' (JStr ''x'') example_doc
             = ([''Section nope not found''], Inr example_doc)"
    by (simp add: m(1))
  have a: "updateField 1 ''nope'' ''b1'' ''role'' (JStr ''x'') (store_of example_doc)
       = Inr (saveToStorage 1 (example_doc_at 1)
                ((store_of (example_doc_at 1))\<lparr>console := [''Section nope not found'']\<rparr>))"
    using u stamped_example [of 1 0]
    by (simp add: updateField_def setDoc_def run_updater_def store_of_def example_doc_def)
  have "\<forall>b\<in>set (blocks_of (example_section ''s1'' [example_block ''b1''])). \<not> has_id ''zz'' b"
    by (simp add: example_blocks_of example_block_has_id)
  from miss_block(2) [OF m(2) m(3) f2 this]
  have r: "removeBlock_updater ''s1'' ''zz'' example_doc = ([], Inr example_doc)"
    by (simp add: m(1))
  have b: "removeBlock 1 ''s1'' ''zz'' (store_of example_doc)
       = Inr (saveToStorage 1 (example_doc_at 1) (store_of (example_doc_at 1)))"
    using r stamped_example [of 1 0]
    by (simp add: removeBlock_def setDoc_def run_updater_def store_of_def example_doc_def)
  have c: "console (saveToStorage 1 (example_doc_at 1) (store_of (example_doc_at 1))) = []"
    by (simp add: store_of_def)
  have d: "doc (saveToStorage 1 (example_doc_at 1)
            ((store_of (example_doc_at 1))\<lparr>console := [''Section nope not found'']\<rparr>)) = example_doc_at 1"
    by (simp add: store_of_def)
  have e: "example_doc_at 1 \<noteq> example_doc"
    using example_doc_at_neq by (simp add: example_doc_def)
  from ok f a d e f2 f3 b c show ?thesis by blast
qed

section \<open>Facts about adding a block\<close>

lemma find_by_id_sections_first:
  assumes "list_all is_Section ss" and "n < length ss" and "has_id i (ss ! n)"
    and "\<forall>j<n. \<not> has_id i (ss ! j)"
  shows "find_by_id ss i = Inr (Some n)"
proof -
  have "\<exists>x\<in>set ss. has_id i x" using assms(2,3) by auto
  moreover have "length (takeWhile (\<lambda>x. \<not> has_id i x) ss) = n"
    using takeWhile_first [of n ss "has_id i"] assms(2-4) by simp
  ultimately show ?thesis
    using find_by_id_records [OF list_all_mono' [OF assms(1) is_Section_record], of i] by simp
qed

lemma addBlock_updater_hit:
  assumes "fmlookup m ''sections'' = Some (JArr ss)" and "list_all is_Section ss"
    and "n < length ss" and "has_id sectionId (ss ! n)" and "\<forall>j<n. \<not> has_id sectionId (ss ! j)"
    and "fmlookup t ''type'' = Some (JStr ty)"
  shows "addBlock_updater rt r sectionId (JObj t) (JObj m) =
           ([], Inr (JObj (fmupd ''sections''
                  (JArr (ss[n := with_own (ss ! n) ''blocks''
                            (JArr (blocks_of (ss ! n) @ [JObj (fmupd ''id'' (JStr (uid (Some ty) r)) t)]))]))
                  m)))"
proof -
  from assms(2,3) have "is_Section (ss ! n)" by (simp add: list_all_length)
  from is_Section_blocks [OF this] obtain xm where
    x: "ss ! n = JObj xm" "fmlookup xm ''blocks'' = Some (JArr (blocks_of (ss ! n)))" by blast
  have ap: "array_prop (ss ! n) ''blocks'' = Inr (blocks_of (ss ! n))"
    using x by (simp add: array_prop_obj proto_key_def)
  show ?thesis
    using assms(1,6)
    by (simp add: addBlock_updater_def deep_clone_def array_prop_obj proto_key_def
        find_by_id_sections_first [OF assms(2-5)] ap with_section_def)
qed

text \<open>
  C5. For a document of the typedef's shape whose first section with id \<open>sectionId\<close>
  is the \<open>n\<close>-th, and a template \<open>t\<close> whose \<^verbatim>\<open>type\<close> is the string \<open>ty\<close>,
  \<^verbatim>\<open>addBlock\<close> returns and commits a document with as many sections, every section
  but the \<open>n\<close>-th unchanged, the \<open>n\<close>-th unchanged at every key but
  \<^verbatim>\<open>blocks\<close>, and its blocks the previous blocks followed by one new block: the
  template with its \<^verbatim>\<open>id\<close> replaced by \<open>ty\<close>, an underscore and the characters 2 to
  9 of the random number's rendering, and equal to the template at every other key, its
  \<^verbatim>\<open>fields\<close> among them.
\<close>

theorem addBlock_appends_new_block:
  assumes "is_ResumeDoc (doc s)"
    and "n < length (sections_of (doc s))"
    and "has_id sectionId (sections_of (doc s) ! n)"
    and "\<forall>j<n. \<not> has_id sectionId (sections_of (doc s) ! j)"
    and "fmlookup t ''type'' = Some (JStr ty)"
  shows "\<exists>s'. addBlock rt now r sectionId (JObj t) s = Inr s'
     \<and> length (sections_of (doc s')) = length (sections_of (doc s))
     \<and> (\<forall>j. j \<noteq> n \<longrightarrow> sections_of (doc s') ! j = sections_of (doc s) ! j)
     \<and> (\<forall>k. k \<noteq> ''blocks'' \<longrightarrow>
           own (Some (sections_of (doc s') ! n)) k = own (Some (sections_of (doc s) ! n)) k)
     \<and> blocks_of (sections_of (doc s') ! n) =
         blocks_of (sections_of (doc s) ! n) @ [JObj (fmupd ''id'' (JStr (uid (Some ty) r)) t)]
     \<and> uid (Some ty) r = ty @ ''_'' @ take 8 (drop 2 r)
     \<and> own (Some (JObj (fmupd ''id'' (JStr (uid (Some ty) r)) t))) ''fields'' = fmlookup t ''fields''
     \<and> (\<forall>k. k \<noteq> ''id'' \<longrightarrow>
           own (Some (JObj (fmupd ''id'' (JStr (uid (Some ty) r)) t))) k = fmlookup t k)"
proof -
  let ?ss = "sections_of (doc s)"
  let ?nb = "JObj (fmupd ''id'' (JStr (uid (Some ty) r)) t)"
  let ?sec = "with_own (?ss ! n) ''blocks'' (JArr (blocks_of (?ss ! n) @ [?nb]))"
  from is_ResumeDoc_sections [OF assms(1)] obtain m where
    m: "doc s = JObj m" "fmlookup m ''sections'' = Some (JArr ?ss)" "list_all is_Section ?ss"
    by blast
  from m(3) assms(2) have "is_Section (?ss ! n)" by (simp add: list_all_length)
  from is_Section_blocks [OF this] obtain xm where x: "?ss ! n = JObj xm" by blast
  have upd: "addBlock_updater rt r sectionId (JObj t) (doc s) =
               ([], Inr (JObj (fmupd ''sections'' (JArr (?ss[n := ?sec])) m)))"
    using addBlock_updater_hit [OF m(2) m(3) assms(2-5), of rt r] by (metis m(1))
  from setDoc_Fn_logging [of "addBlock_updater rt r sectionId (JObj t)" s, OF upd, of now]
  obtain s' where s': "addBlock rt now r sectionId (JObj t) s = Inr s'"
    and ss': "sections_of (doc s') = ?ss[n := ?sec]"
    by (auto simp: addBlock_def sections_of_def)
  have sec_n: "sections_of (doc s') ! n = ?sec" using ss' assms(2) by simp
  have a: "length (sections_of (doc s')) = length ?ss" by (simp add: ss')
  have b: "\<forall>j. j \<noteq> n \<longrightarrow> sections_of (doc s') ! j = ?ss ! j" by (simp add: ss')
  have c: "\<forall>k. k \<noteq> ''blocks'' \<longrightarrow> own (Some (sections_of (doc s') ! n)) k = own (Some (?ss ! n)) k"
    by (simp add: sec_n x with_own_def own_def)
  have d: "blocks_of (sections_of (doc s') ! n) = blocks_of (?ss ! n) @ [?nb]"
    unfolding sec_n by (simp add: x with_own_def blocks_of_def)
  have e: "uid (Some ty) r = ty @ ''_'' @ take 8 (drop 2 r)" by (simp add: uid_def slice_def)
  have f: "own (Some ?nb) ''fields'' = fmlookup t ''fields''" by (simp add: own_def)
  have g: "\<forall>k. k \<noteq> ''id'' \<longrightarrow> own (Some ?nb) k = fmlookup t k" by (simp add: own_def)
  from s' a b c d e f g show ?thesis by blast
qed

text \<open>
  The theorem at the example document and the template \<^verbatim>\<open>{id: "tmp", type:
  "experience", fields: {role: "Eng"}}\<close>.
\<close>

theorem addBlock_appends_new_block_witness:
  "is_ResumeDoc (doc (store_of example_doc))
   \<and> (0::nat) < length (sections_of (doc (store_of example_doc)))
   \<and> has_id ''s1'' (sections_of (doc (store_of example_doc)) ! 0)
   \<and> fmlookup example_template ''type'' = Some (JStr ''experience'')
   \<and> (\<exists>s'. addBlock example_runtime 3 ''0.4fzyo82mvyr'' ''s1'' (JObj example_template) (store_of example_doc) = Inr s'
        \<and> blocks_of (sections_of (doc s') ! 0) =
            [example_block ''b1'',
             JObj (fmupd ''id'' (JStr ''experience_4fzyo82m'') example_template)]
        \<and> sections_of (doc s') ! 1 = example_section ''s2'' [])"
proof -
  let ?s = "store_of example_doc"
  have a: "(0::nat) < length (sections_of (doc ?s))" by (simp add: example_sections)
  have b: "has_id ''s1'' (sections_of (doc ?s) ! 0)" by (simp add: example_sections example_has_id)
  have c: "\<forall>j<(0::nat). \<not> has_id ''s1'' (sections_of (doc ?s) ! j)" by simp
  have d: "fmlookup example_template ''type'' = Some (JStr ''experience'')"
    by (simp add: example_template_def)
  have u: "uid (Some ''experience'') ''0.4fzyo82mvyr'' = ''experience_4fzyo82m''"
    by (simp add: uid_def slice_def)
  from addBlock_appends_new_block [OF example_doc_ok a b c d, of example_runtime 3 "''0.4fzyo82mvyr''"]
  obtain s' where "addBlock example_runtime 3 ''0.4fzyo82mvyr'' ''s1'' (JObj example_template) ?s = Inr s'"
    and "\<forall>j. j \<noteq> 0 \<longrightarrow> sections_of (doc s') ! j = sections_of (doc ?s) ! j"
    and "blocks_of (sections_of (doc s') ! 0) =
         blocks_of (sections_of (doc ?s) ! 0) @ [JObj (fmupd ''id'' (JStr (uid (Some ''experience'') ''0.4fzyo82mvyr'')) example_template)]"
    by blast
  then have "\<exists>s'. addBlock example_runtime 3 ''0.4fzyo82mvyr'' ''s1'' (JObj example_template) ?s = Inr s'
        \<and> blocks_of (sections_of (doc s') ! 0) =
            [example_block ''b1'', JObj (fmupd ''id'' (JStr ''experience_4fzyo82m'') example_template)]
        \<and> sections_of (doc s') ! 1 = example_section ''s2'' []"
    by (auto simp: u example_sections example_blocks_of)
  with example_doc_ok a b d show ?thesis by blast
qed

section \<open>Facts about the debounced save\<close>

lemma advance_none_due: "none_due t s \<Longrightarrow> advance rt t s = s"
proof -
  assume "none_due t s"
  then have "filter (\<lambda>tm. fst (snd tm) \<le> t) (timers s) = []"
    by (auto simp: none_due_def list_all_iff filter_empty_conv)
  then show ?thesis by (simp add: advance_def)
qed

lemma setDoc_Inr:
  assumes "setDoc now u s = Inr s'"
  shows "\<exists>D msgs. s' = saveToStorage now D (s\<lparr>doc := D, console := console s @ msgs\<rparr>)"
  using assms by (auto simp: setDoc_def split: sum.splits)

lemma clearTimeout_tracked:
  "timers_tracked s \<Longrightarrow> clearTimeout (saveTimeout s) (timers s) = []"
  by (auto simp: timers_tracked_def clearTimeout_def split: list.splits option.splits)

lemma setDoc_at_tracked:
  assumes "timers_tracked s" and "none_due t s" and "setDoc t u (advance rt t s) = Inr s'"
  shows "setDoc t u s = Inr (setDoc_at rt t u s)
       \<and> timers (setDoc_at rt t u s) = [(next_timer s, t + AUTOSAVE_DELAY, doc (setDoc_at rt t u s))]
       \<and> saveTimeout (setDoc_at rt t u s) = Some (next_timer s)
       \<and> next_timer (setDoc_at rt t u s) = Suc (next_timer s)
       \<and> writes (setDoc_at rt t u s) = writes s
       \<and> item (setDoc_at rt t u s) = item s"
proof -
  from assms(3) have r: "setDoc t u s = Inr s'" by (simp add: advance_none_due [OF assms(2)])
  from setDoc_Inr [OF r] obtain D msgs where
    D: "s' = saveToStorage t D (s\<lparr>doc := D, console := console s @ msgs\<rparr>)" by blast
  have c: "clearTimeout (saveTimeout s) (timers s) = []"
    by (rule clearTimeout_tracked [OF assms(1)])
  show ?thesis
    by (simp add: setDoc_at_def advance_none_due [OF assms(2)] r D saveToStorage_def c)
qed

lemma setDoc_at_eq:
  assumes "setDoc t u (advance rt t s) = Inr s'"
  shows "setDoc_at rt t u s = s'"
  using assms by (simp add: setDoc_at_def)

lemma tracked_after:
  assumes "timers s' = [(n, due, d)]" and "saveTimeout s' = Some n" and "next_timer s' = Suc n"
  shows "timers_tracked s'"
  using assms by (simp add: timers_tracked_def)

lemma all_commit_take: "all_commit rt cs s \<Longrightarrow> all_commit rt (take n cs) s"
proof (induction cs arbitrary: s n)
  case Nil
  then show ?case by simp
next
  case (Cons c cs)
  obtain t u where c: "c = (t, u)" by (cases c)
  show ?case
  proof (cases n)
    case 0
    then show ?thesis by simp
  next
    case (Suc k)
    with Cons show ?thesis by (auto simp: c split: sum.splits)
  qed
qed

lemma burst_pending:
  assumes "cs \<noteq> []"
  shows "timers_tracked s \<Longrightarrow> none_due (fst (hd cs)) s \<Longrightarrow> within_delay (map fst cs) \<Longrightarrow>
         all_commit rt cs s \<Longrightarrow>
         writes (commit_burst rt cs s) = writes s
       \<and> item (commit_burst rt cs s) = item s
       \<and> setDoc (fst (last cs)) (snd (last cs)) (commit_burst rt (butlast cs) s)
           = Inr (commit_burst rt cs s)
       \<and> (\<exists>i. timers (commit_burst rt cs s)
                = [(i, fst (last cs) + AUTOSAVE_DELAY, doc (commit_burst rt cs s))])"
  using assms
proof (induction cs arbitrary: s rule: list_nonempty_induct)
  case (single c)
  obtain t u where c: "c = (t, u)" by (cases c)
  from single have nd: "none_due t s" by (simp add: c)
  from single(4) obtain s' where "setDoc t u (advance rt t s) = Inr s'"
    by (auto simp: c split: sum.splits)
  from setDoc_at_tracked [OF single(1) nd this] show ?case by (simp add: c)
next
  case (cons c cs)
  obtain t u where c: "c = (t, u)" by (cases c)
  from cons(1) obtain c' rest where cs: "cs = c' # rest" by (cases cs) auto
  obtain t' u' where c': "c' = (t', u')" by (cases c')
  let ?s1 = "setDoc_at rt t u s"
  from cons.prems have nd: "none_due t s" by (simp add: c)
  from cons.prems(4) obtain s' where s': "setDoc t u (advance rt t s) = Inr s'"
    and rest: "all_commit rt cs s'"
    by (auto simp: c split: sum.splits)
  note step = setDoc_at_tracked [OF cons.prems(1) nd s']
  from step have tr: "timers_tracked ?s1" using tracked_after by blast
  from cons.prems(3) have "t' < t + AUTOSAVE_DELAY" by (simp add: c cs c')
  with step have nd1: "none_due (fst (hd cs)) ?s1" by (simp add: none_due_def cs c')
  from cons.prems(3) have wd: "within_delay (map fst cs)" by (simp add: c cs c')
  from rest have cms: "all_commit rt cs ?s1" by (simp add: setDoc_at_eq [OF s'])
  from cons.IH [OF tr nd1 wd cms] step cons(1) show ?case
    by (simp add: c)
qed

lemma advance_single_due:
  assumes "timers s = [(i, due, d)]" and "due \<le> T"
  shows "advance rt T s =
           s\<lparr>timers := [], writes := JSON_stringify rt d # writes s,
             item := (if setItem_throws rt (JSON_stringify rt d) then item s
                      else Some (JSON_stringify rt d)),
             console := (if setItem_throws rt (JSON_stringify rt d)
                         then console s @ [''Failed to save resume to localStorage:'']
                         else console s)\<rparr>"
  using assms by (simp add: advance_def run_timer_def)

lemma advance_single_not_due:
  assumes "timers s = [(i, due, d)]" and "t < due"
  shows "advance rt t s = s"
  using assms by (simp add: advance_def)

lemma within_delay_take: "within_delay ts \<Longrightarrow> within_delay (take n ts)"
proof (induction ts arbitrary: n rule: within_delay.induct)
  case (1 t t' ts)
  show ?case
  proof (cases n)
    case 0
    then show ?thesis by simp
  next
    case (Suc k)
    show ?thesis
    proof (cases k)
      case 0
      with Suc show ?thesis by simp
    next
      case (Suc j)
      from "1.IH" [of "Suc j"] "1.prems" have "within_delay (t' # take j ts)" by simp
      with "1.prems" Suc \<open>n = Suc k\<close> show ?thesis by simp
    qed
  qed
qed (auto simp: take_Cons')

text \<open>
  C6. Take a store whose pending timers are at most the one \<^verbatim>\<open>saveTimeout\<close> names,
  none of them due by the first commit, and a burst of one or more \<^verbatim>\<open>setDoc\<close> calls
  that all commit, each less than \<open>AUTOSAVE_DELAY = 500\<close> after the one before. Then the
  store after the burst is what the last call returned; after each commit of the burst
  nothing has been written and exactly one timer is pending, the one that commit set,
  holding the document it committed (the earlier timer is cleared, not kept); nothing is
  written before the delay after the last commit has elapsed; and once it has, exactly
  one \<^verbatim>\<open>setItem\<close> call has been made, with the text of the document of the last
  commit, which is the stored item unless that call threw, and no timer is left.
\<close>

theorem burst_makes_one_write:
  assumes "cs \<noteq> []" and "within_delay (map fst cs)" and "all_commit rt cs s"
    and "timers_tracked s" and "none_due (fst (hd cs)) s"
    and "fst (last cs) + AUTOSAVE_DELAY \<le> T"
  shows "AUTOSAVE_DELAY = 500
     \<and> setDoc (fst (last cs)) (snd (last cs)) (commit_burst rt (butlast cs) s)
         = Inr (commit_burst rt cs s)
     \<and> (\<forall>n. 0 < n \<and> n \<le> length cs \<longrightarrow>
           writes (commit_burst rt (take n cs) s) = writes s
         \<and> (\<exists>i. timers (commit_burst rt (take n cs) s)
                  = [(i, fst (cs ! (n - 1)) + AUTOSAVE_DELAY, doc (commit_burst rt (take n cs) s))]))
     \<and> (\<forall>t. fst (last cs) \<le> t \<and> t < fst (last cs) + AUTOSAVE_DELAY \<longrightarrow>
           advance rt t (commit_burst rt cs s) = commit_burst rt cs s)
     \<and> writes (advance rt T (commit_burst rt cs s))
         = JSON_stringify rt (doc (commit_burst rt cs s)) # writes s
     \<and> timers (advance rt T (commit_burst rt cs s)) = []
     \<and> doc (advance rt T (commit_burst rt cs s)) = doc (commit_burst rt cs s)
     \<and> item (advance rt T (commit_burst rt cs s))
         = (if setItem_throws rt (JSON_stringify rt (doc (commit_burst rt cs s))) then item s
            else Some (JSON_stringify rt (doc (commit_burst rt cs s))))"
proof -
  let ?b = "commit_burst rt cs s"
  from burst_pending [OF assms(1,4,5,2,3)] obtain i where
    b: "writes ?b = writes s" "item ?b = item s"
       "setDoc (fst (last cs)) (snd (last cs)) (commit_burst rt (butlast cs) s) = Inr ?b"
       "timers ?b = [(i, fst (last cs) + AUTOSAVE_DELAY, doc ?b)]" by blast
  have prefixes: "\<forall>n. 0 < n \<and> n \<le> length cs \<longrightarrow>
           writes (commit_burst rt (take n cs) s) = writes s
         \<and> (\<exists>i. timers (commit_burst rt (take n cs) s)
                  = [(i, fst (cs ! (n - 1)) + AUTOSAVE_DELAY, doc (commit_burst rt (take n cs) s))])"
  proof (intro allI impI)
    fix n assume n: "0 < n \<and> n \<le> length cs"
    then have ne: "take n cs \<noteq> []" using assms(1) by auto
    have hd: "hd (take n cs) = hd cs" using n by (cases cs) (auto simp: take_Cons')
    have len: "length (take n cs) = n" using n by simp
    have lst: "last (take n cs) = cs ! (n - 1)"
      using n by (simp only: last_conv_nth [OF ne] len) simp
    have wd: "within_delay (map fst (take n cs))"
      using within_delay_take [OF assms(2), of n] by (simp add: take_map)
    have cm: "all_commit rt (take n cs) s"
      by (rule all_commit_take [OF assms(3)])
    from burst_pending [OF ne assms(4) _ wd cm] assms(5)
    show "writes (commit_burst rt (take n cs) s) = writes s
         \<and> (\<exists>i. timers (commit_burst rt (take n cs) s)
                  = [(i, fst (cs ! (n - 1)) + AUTOSAVE_DELAY, doc (commit_burst rt (take n cs) s))])"
      by (simp add: hd lst)
  qed
  have early: "\<forall>t. fst (last cs) \<le> t \<and> t < fst (last cs) + AUTOSAVE_DELAY \<longrightarrow> advance rt t ?b = ?b"
    using advance_single_not_due [OF b(4)] by blast
  note fin = advance_single_due [OF b(4) assms(6), of rt]
  from b prefixes early show ?thesis
    by (simp add: fin AUTOSAVE_DELAY_def)
qed

text \<open>The condition on the timers holds in a new store and after every call.\<close>

lemma timers_tracked_created: "timers_tracked (store_of d)"
  by (simp add: timers_tracked_def store_of_def)

lemma timers_tracked_saveToStorage:
  "timers_tracked s \<Longrightarrow> timers_tracked (saveToStorage now d (s\<lparr>doc := D, console := c\<rparr>))"
  using clearTimeout_tracked [of s]
  by (simp add: timers_tracked_def saveToStorage_def)

lemma timers_tracked_setDoc:
  assumes "timers_tracked s" and "setDoc now u s = Inr s'"
  shows "timers_tracked s'"
  using assms timers_tracked_saveToStorage [OF assms(1)]
  by (auto simp: setDoc_def split: sum.splits)

lemma timers_tracked_advance: "timers_tracked s \<Longrightarrow> timers_tracked (advance rt t s)"
  by (auto simp: timers_tracked_def advance_def run_timer_def split: list.splits)

lemma timers_tracked_reset:
  "timers_tracked s \<Longrightarrow> timers_tracked (resetToSample rt c1 c2 r s)"
  by (auto simp: timers_tracked_def resetToSample_def split: list.splits)

lemma timers_tracked_setTemplate: "timers_tracked s \<Longrightarrow> timers_tracked (setTemplate t s)"
  by (auto simp: timers_tracked_def setTemplate_def split: list.splits)

text \<open>
  The theorem at the example burst: by time 1099 the one text written is that of the
  third document.
\<close>

theorem burst_makes_one_write_witness:
  "example_burst \<noteq> []
   \<and> within_delay (map fst example_burst)
   \<and> all_commit example_runtime example_burst (store_of example_doc)
   \<and> timers_tracked (store_of example_doc)
   \<and> none_due (fst (hd example_burst)) (store_of example_doc)
   \<and> fst (last example_burst) + AUTOSAVE_DELAY \<le> 1099
   \<and> writes (advance example_runtime 1099 (commit_burst example_runtime example_burst (store_of example_doc)))
       = [''c'']
   \<and> item (advance example_runtime 1099 (commit_burst example_runtime example_burst (store_of example_doc)))
       = Some ''c''"
proof -
  let ?s = "store_of example_doc"
  have a: "example_burst \<noteq> []" by (simp add: example_burst_def)
  have b: "within_delay (map fst example_burst)"
    by (simp add: example_burst_def AUTOSAVE_DELAY_def)
  have c: "all_commit example_runtime example_burst ?s"
    by (simp add: example_burst_def setDoc_def run_updater_def stamped_obj advance_def
        saveToStorage_def clearTimeout_def store_of_def)
  have d: "timers_tracked ?s" by (rule timers_tracked_created)
  have e: "none_due (fst (hd example_burst)) ?s" by (simp add: none_due_def store_of_def)
  have f: "fst (last example_burst) + AUTOSAVE_DELAY \<le> 1099"
    by (simp add: example_burst_def AUTOSAVE_DELAY_def)
  have last: "setDoc (fst (last example_burst)) (snd (last example_burst)) s'
          = Inr b \<Longrightarrow> JSON_stringify example_runtime (doc b) = ''c''" for s' b
    by (auto simp: example_burst_def setDoc_def run_updater_def stamped_obj example_runtime_def own_def)
  have w: "writes ?s = []" "\<not> setItem_throws example_runtime x" for x
    by (simp_all add: store_of_def example_runtime_def)
  note th = burst_makes_one_write [OF a b c d e f]
  let ?b = "commit_burst example_runtime example_burst ?s"
  from th have "setDoc (fst (last example_burst)) (snd (last example_burst))
                  (commit_burst example_runtime (butlast example_burst) ?s) = Inr ?b"
    by blast
  from last [OF this] have js: "JSON_stringify example_runtime (doc ?b) = ''c''" .
  from th have "writes (advance example_runtime 1099 ?b) = JSON_stringify example_runtime (doc ?b) # writes ?s"
    by blast
  then have wr: "writes (advance example_runtime 1099 ?b) = [''c'']" by (simp add: js w)
  from th have "item (advance example_runtime 1099 ?b)
         = (if setItem_throws example_runtime (JSON_stringify example_runtime (doc ?b)) then item ?s
            else Some (JSON_stringify example_runtime (doc ?b)))"
    by blast
  then have it: "item (advance example_runtime 1099 ?b) = Some ''c''" by (simp add: js w)
  from a b c d e f wr it show ?thesis by blast
qed

text \<open>
  C9. When one save is pending, set for the current document and due at \<open>due\<close>, a
  \<^verbatim>\<open>resetToSample\<close> at a time before \<open>due\<close> removes the stored item and installs
  the sample under a new id, but leaves the timer pending; once \<open>due\<close> has passed the
  timer has run: the one text written since is that of the document before the reset, it
  is the stored item (unless \<^verbatim>\<open>setItem\<close> threw, in which case nothing is stored),
  and the document in memory is still the new sample.
\<close>

theorem reset_leaves_pending_save:
  assumes "timers s = [(i, due, doc s)]" and "t < due" and "due \<le> T"
  shows "item (resetToSample rt c1 c2 r (advance rt t s)) = None
     \<and> own (Some (doc (resetToSample rt c1 c2 r (advance rt t s)))) ''id''
         = Some (JStr (uid (Some ''resume'') r))
     \<and> (\<forall>k. k \<noteq> ''id'' \<and> k \<noteq> ''meta'' \<longrightarrow>
           own (Some (doc (resetToSample rt c1 c2 r (advance rt t s)))) k = fmlookup (sampleResume rt) k)
     \<and> template (resetToSample rt c1 c2 r (advance rt t s)) = ''classic''
     \<and> timers (resetToSample rt c1 c2 r (advance rt t s)) = [(i, due, doc s)]
     \<and> writes (advance rt T (resetToSample rt c1 c2 r (advance rt t s)))
         = JSON_stringify rt (doc s) # writes s
     \<and> item (advance rt T (resetToSample rt c1 c2 r (advance rt t s)))
         = (if setItem_throws rt (JSON_stringify rt (doc s)) then None
            else Some (JSON_stringify rt (doc s)))
     \<and> doc (advance rt T (resetToSample rt c1 c2 r (advance rt t s)))
         = doc (resetToSample rt c1 c2 r (advance rt t s))"
proof -
  have early: "advance rt t s = s" by (rule advance_single_not_due [OF assms(1,2)])
  let ?r = "resetToSample rt c1 c2 r s"
  have tm: "timers ?r = [(i, due, doc s)]" by (simp add: resetToSample_def assms(1))
  note fin = advance_single_due [OF tm assms(3), of rt]
  show ?thesis
    unfolding early fin using tm
    by (simp add: resetToSample_def own_def)
qed

text \<open>
  The theorem after a commit at time 0: reset at time 200, and at time 500 the document
  with id \<^verbatim>\<open>doc\<close> is back in storage.
\<close>

theorem reset_leaves_pending_save_witness:
  "timers example_pending = [(0, 500, doc example_pending)]
   \<and> (200::int) < 500 \<and> (500::int) \<le> 500
   \<and> item (resetToSample example_runtime 200 200 ''0.abc'' (advance example_runtime 200 example_pending)) = None
   \<and> item (advance example_runtime 500
        (resetToSample example_runtime 200 200 ''0.abc'' (advance example_runtime 200 example_pending)))
       = Some ''doc''"
proof -
  have a: "timers example_pending = [(0, 500, doc example_pending)]"
    by (simp add: example_pending_def saveToStorage_def store_of_def clearTimeout_def AUTOSAVE_DELAY_def)
  have b: "(200::int) < 500" and c: "(500::int) \<le> 500" by simp_all
  have d: "JSON_stringify example_runtime (doc example_pending) = ''doc''"
    by (simp add: example_pending_def store_of_def example_runtime_def example_doc_at_def own_def)
  have e: "\<not> setItem_throws example_runtime x" for x by (simp add: example_runtime_def)
  from reset_leaves_pending_save [OF a b c, of example_runtime 200 200 "''0.abc''"] d e
  have "item (resetToSample example_runtime 200 200 ''0.abc'' (advance example_runtime 200 example_pending)) = None
   \<and> item (advance example_runtime 500
        (resetToSample example_runtime 200 200 ''0.abc'' (advance example_runtime 200 example_pending)))
       = Some ''doc''"
    by simp
  with a b c show ?thesis by blast
qed

end
